theory Spec2Isabelle
  imports Complex_Main "HOL-Library.Multiset"
begin

section \<open>JavaScript numbers\<close>

text \<open>
  The metrics engine, the classifier and the scheduler of NeuroScroll compute with
  JavaScript numbers.  A number is modelled as a finite real or one of the three
  non-finite values, so that every \<^verbatim>\<open>isFinite\<close> guard and every truthiness test of
  the source is a branch of the model.  The finite numbers are the doubles (IEEE 754
  binary64); the value of an arithmetic operation on finite operands is its exact result
  rounded to the nearest double, ties to even, and an infinity when that is beyond the
  largest double.  The sign of zero is not modelled.
\<close>

datatype number = Fin real | PosInf | NegInf | NaN

text \<open>The sign of an infinite result; zero counts as positive zero.\<close>

definition signed_inf :: "bool \<Rightarrow> number" where
  "signed_inf positive = (if positive then PosInf else NegInf)"

text \<open>
  The distance between neighbouring doubles around \<open>x\<close>: \<open>2\<^sup>e\<^sup>-\<^sup>5\<^sup>2\<close> for
  \<open>2\<^sup>e \<le> |x| < 2\<^sup>e\<^sup>+\<^sup>1\<close>, and that of the smallest exponent \<open>-1022\<close> below it.
\<close>

definition ulp :: "real \<Rightarrow> real" where
  "ulp x = 2 powr of_int (max \<lfloor>log 2 \<bar>x\<bar>\<rfloor> (- 1022) - 52)"

text \<open>The integer nearest to \<open>y\<close>, the even one of the two when \<open>y\<close> lies half-way.\<close>

definition nearestEven :: "real \<Rightarrow> int" where
  "nearestEven y =
     (let f = \<lfloor>y\<rfloor>; d = y - of_int f
      in if d < 1 / 2 then f else if 1 / 2 < d then f + 1 else if even f then f else f + 1)"

text \<open>
  The number that a real result becomes: the nearest multiple of \<open>ulp x\<close>, or an
  infinity from \<open>2\<^sup>1\<^sup>0\<^sup>2\<^sup>4\<close> on.  A decimal literal of the source that is not a
  double, such as \<^verbatim>\<open>0.3\<close>, is the number \<open>fl 0.3\<close>.
\<close>

definition fl :: "real \<Rightarrow> number" where
  "fl x =
     (if x = 0 then Fin 0
      else let r = of_int (nearestEven (x / ulp x)) * ulp x
           in if 2 ^ 1024 \<le> \<bar>r\<bar> then signed_inf (0 < x) else Fin r)"

fun isFinite :: "number \<Rightarrow> bool" where
  "isFinite (Fin r) = True"
| "isFinite PosInf = False"
| "isFinite NegInf = False"
| "isFinite NaN = False"

fun isNaN :: "number \<Rightarrow> bool" where
  "isNaN NaN = True"
| "isNaN (Fin r) = False"
| "isNaN PosInf = False"
| "isNaN NegInf = False"

text \<open>Truthiness of a number: \<^verbatim>\<open>0\<close> and \<^verbatim>\<open>NaN\<close> are falsy.\<close>

fun truthy :: "number \<Rightarrow> bool" where
  "truthy (Fin r) = (r \<noteq> 0)"
| "truthy NaN = False"
| "truthy PosInf = True"
| "truthy NegInf = True"

text \<open>The comparisons \<^verbatim>\<open><\<close>, \<^verbatim>\<open><=\<close>, \<^verbatim>\<open>>\<close>, \<^verbatim>\<open>>=\<close> and \<^verbatim>\<open>===\<close>: all false on NaN.\<close>

fun num_lt :: "number \<Rightarrow> number \<Rightarrow> bool" where
  "num_lt (Fin a) (Fin b) = (a < b)"
| "num_lt (Fin a) PosInf = True"
| "num_lt NegInf (Fin b) = True"
| "num_lt NegInf PosInf = True"
| "num_lt _ _ = False"

fun num_le :: "number \<Rightarrow> number \<Rightarrow> bool" where
  "num_le (Fin a) (Fin b) = (a \<le> b)"
| "num_le (Fin a) PosInf = True"
| "num_le NegInf (Fin b) = True"
| "num_le NegInf PosInf = True"
| "num_le PosInf PosInf = True"
| "num_le NegInf NegInf = True"
| "num_le _ _ = False"

definition num_gt :: "number \<Rightarrow> number \<Rightarrow> bool" where
  "num_gt a b = num_lt b a"

definition num_ge :: "number \<Rightarrow> number \<Rightarrow> bool" where
  "num_ge a b = num_le b a"

fun num_eq :: "number \<Rightarrow> number \<Rightarrow> bool" where
  "num_eq (Fin a) (Fin b) = (a = b)"
| "num_eq PosInf PosInf = True"
| "num_eq NegInf NegInf = True"
| "num_eq _ _ = False"

fun num_neg :: "number \<Rightarrow> number" where
  "num_neg (Fin a) = Fin (- a)"
| "num_neg PosInf = NegInf"
| "num_neg NegInf = PosInf"
| "num_neg NaN = NaN"

fun num_add :: "number \<Rightarrow> number \<Rightarrow> number" where
  "num_add (Fin a) (Fin b) = fl (a + b)"
| "num_add NaN _ = NaN"
| "num_add _ NaN = NaN"
| "num_add PosInf NegInf = NaN"
| "num_add NegInf PosInf = NaN"
| "num_add PosInf _ = PosInf"
| "num_add _ PosInf = PosInf"
| "num_add NegInf _ = NegInf"
| "num_add _ NegInf = NegInf"

definition num_sub :: "number \<Rightarrow> number \<Rightarrow> number" where
  "num_sub a b = num_add a (num_neg b)"

fun num_mul :: "number \<Rightarrow> number \<Rightarrow> number" where
  "num_mul (Fin a) (Fin b) = fl (a * b)"
| "num_mul NaN _ = NaN"
| "num_mul _ NaN = NaN"
| "num_mul (Fin a) PosInf = (if a = 0 then NaN else signed_inf (0 < a))"
| "num_mul (Fin a) NegInf = (if a = 0 then NaN else signed_inf (a < 0))"
| "num_mul PosInf (Fin b) = (if b = 0 then NaN else signed_inf (0 < b))"
| "num_mul NegInf (Fin b) = (if b = 0 then NaN else signed_inf (b < 0))"
| "num_mul PosInf PosInf = PosInf"
| "num_mul NegInf NegInf = PosInf"
| "num_mul PosInf NegInf = NegInf"
| "num_mul NegInf PosInf = NegInf"

fun num_div :: "number \<Rightarrow> number \<Rightarrow> number" where
  "num_div (Fin a) (Fin b) =
     (if b = 0 then (if a = 0 then NaN else signed_inf (0 < a)) else fl (a / b))"
| "num_div NaN _ = NaN"
| "num_div _ NaN = NaN"
| "num_div (Fin a) PosInf = Fin 0"
| "num_div (Fin a) NegInf = Fin 0"
| "num_div PosInf (Fin b) = signed_inf (0 \<le> b)"
| "num_div NegInf (Fin b) = signed_inf (b < 0)"
| "num_div PosInf PosInf = NaN"
| "num_div PosInf NegInf = NaN"
| "num_div NegInf PosInf = NaN"
| "num_div NegInf NegInf = NaN"

text \<open>\<^verbatim>\<open>Math.max\<close>, \<^verbatim>\<open>Math.min\<close>, \<^verbatim>\<open>Math.abs\<close> and \<^verbatim>\<open>Math.sqrt\<close>.\<close>

definition num_max :: "number \<Rightarrow> number \<Rightarrow> number" where
  "num_max a b = (if isNaN a \<or> isNaN b then NaN else if num_lt a b then b else a)"

definition num_min :: "number \<Rightarrow> number \<Rightarrow> number" where
  "num_min a b = (if isNaN a \<or> isNaN b then NaN else if num_lt b a then b else a)"

fun num_abs :: "number \<Rightarrow> number" where
  "num_abs (Fin a) = Fin \<bar>a\<bar>"
| "num_abs PosInf = PosInf"
| "num_abs NegInf = PosInf"
| "num_abs NaN = NaN"

fun num_sqrt :: "number \<Rightarrow> number" where
  "num_sqrt (Fin a) = (if a < 0 then NaN else fl (sqrt a))"
| "num_sqrt PosInf = PosInf"
| "num_sqrt NegInf = NaN"
| "num_sqrt NaN = NaN"

text \<open>A count or an array length read as a number.\<close>

definition of_count :: "nat \<Rightarrow> number" where
  "of_count n = Fin (real n)"

text \<open>\<^verbatim>\<open>xs.reduce((sum, x) => sum + f(x), 0)\<close>.\<close>

definition sum_by :: "('a \<Rightarrow> number) \<Rightarrow> 'a list \<Rightarrow> number" where
  "sum_by f xs = foldl (\<lambda>sum x. num_add sum (f x)) (Fin 0) xs"

section \<open>Sorting with a comparator\<close>

text \<open>
  \<^verbatim>\<open>Array.prototype.sort(cmp)\<close> is a stable sort.  Every comparator of the source
  subtracts integer keys, for which all stable sorts agree; the model is the stable
  insertion sort that puts \<open>x\<close> before the first \<open>y\<close> with \<open>cmp x y \<le> 0\<close>.
\<close>

fun insert_by :: "('a \<Rightarrow> 'a \<Rightarrow> int) \<Rightarrow> 'a \<Rightarrow> 'a list \<Rightarrow> 'a list" where
  "insert_by cmp x [] = [x]"
| "insert_by cmp x (y # ys) = (if cmp x y \<le> 0 then x # y # ys else y # insert_by cmp x ys)"

definition sort_by :: "('a \<Rightarrow> 'a \<Rightarrow> int) \<Rightarrow> 'a list \<Rightarrow> 'a list" where
  "sort_by cmp xs = foldr (insert_by cmp) xs []"

section \<open>Data model\<close>

datatype action = Enter | Leave | Replay | Scroll

text \<open>
  Of an interaction's metadata only \<^verbatim>\<open>dwellTime\<close> (milliseconds, optional) is read
  by the engine.  Of an interaction, \<^verbatim>\<open>videoId\<close>, \<^verbatim>\<open>timestamp\<close>, \<^verbatim>\<open>action\<close>
  and \<^verbatim>\<open>metadata\<close> are read; the metadata object may be missing at run time, which
  the source anticipates with \<^verbatim>\<open>i.metadata?.dwellTime\<close>.
\<close>

record Metadata =
  dwellTime :: "number option"

record VideoInteraction =
  videoId :: string
  i_timestamp :: number
  action :: action
  metadata :: "Metadata option"

text \<open>An element of the interactions array: \<open>None\<close> is a null or undefined element.\<close>

type_synonym slot = "VideoInteraction option"

text \<open>The \<^verbatim>\<open>interactions\<close> field of a session at run time: an array or anything else.\<close>

datatype interactions_field = NotAnArray | Arr "slot list"

record ViewingSession =
  session_id :: string
  startTime :: number
  endTime :: "number option"
  isActive :: bool
  videoCount :: number
  totalDwellTime :: number
  interactions :: interactions_field

text \<open>The argument of \<^verbatim>\<open>computeMetrics\<close>: null/undefined, or a session object.\<close>

datatype session_arg = NoSession | Sess ViewingSession

record FatiguePoint =
  fp_videoOrder :: nat
  fp_dwellTime :: number
  fp_timestamp :: number

record BingeBurst =
  startIndex :: nat
  endIndex :: nat
  burstLength :: nat
  averageDwellTime :: number
  bb_timestamp :: number

datatype health = Healthy | Doomscroll | UnknownHealth

datatype archetype = Explorer | Sampler | Doomscroller | UnknownArchetype

record ComputedMetrics =
  dopamineSpikeIndex :: number
  attentionSpan :: number
  replaySensitivity :: nat
  sessionLength :: number
  fatiguePoints :: "FatiguePoint list"
  circadianDrift :: bool
  healthClassification :: health
  confidence :: number
  m_timestamp :: int
  scrollMomentum :: number
  rewardVariability :: number
  bingeBursts :: "BingeBurst list"
  engagementHalfLife :: nat
  cognitiveLoad :: number
  habitStrength :: number
  noveltyBias :: number
  sessionArchetype :: archetype

text \<open>
  The environment of a call: the reading of \<^verbatim>\<open>Date.now()\<close> (integer milliseconds)
  and the local-time hour of a valid time value (\<^verbatim>\<open>new Date(t).getHours()\<close>).
\<close>

record env =
  now :: int
  localHour :: "real \<Rightarrow> nat"

text \<open>A thrown \<^verbatim>\<open>TypeError\<close> or \<^verbatim>\<open>Error\<close>, with its message.\<close>

datatype error = TypeError | Error string

section \<open>Metrics engine\<close>

subsection \<open>Reading the interactions\<close>

text \<open>
  A callback such as \<^verbatim>\<open>i => i.action === 'enter'\<close> reads a property of every
  element in turn and throws a \<^verbatim>\<open>TypeError\<close> at a null or undefined element.
\<close>

fun elements :: "slot list \<Rightarrow> error + VideoInteraction list" where
  "elements [] = Inr []"
| "elements (None # xs) = Inl TypeError"
| "elements (Some i # xs) = (case elements xs of Inl e \<Rightarrow> Inl e | Inr ys \<Rightarrow> Inr (i # ys))"

text \<open>\<^verbatim>\<open>i.metadata?.dwellTime\<close>: undefined when the metadata or the field is missing.\<close>

definition dwellOf :: "VideoInteraction \<Rightarrow> number option" where
  "dwellOf i = (case metadata i of None \<Rightarrow> None | Some m \<Rightarrow> dwellTime m)"

definition truthyOpt :: "number option \<Rightarrow> bool" where
  "truthyOpt d = (case d of None \<Rightarrow> False | Some n \<Rightarrow> truthy n)"

text \<open>An optional number used in arithmetic: undefined converts to NaN.\<close>

definition toNumber :: "number option \<Rightarrow> number" where
  "toNumber d = (case d of None \<Rightarrow> NaN | Some n \<Rightarrow> n)"

text \<open>\<^verbatim>\<open>i && i.action === a\<close>.\<close>

definition hasAction :: "action \<Rightarrow> slot \<Rightarrow> bool" where
  "hasAction a s = (case s of None \<Rightarrow> False | Some i \<Rightarrow> action i = a)"

text \<open>\<^verbatim>\<open>i && i.action === 'leave' && i.metadata?.dwellTime\<close>.\<close>

definition leaveWithDwell :: "slot \<Rightarrow> bool" where
  "leaveWithDwell s = (case s of None \<Rightarrow> False | Some i \<Rightarrow> action i = Leave \<and> truthyOpt (dwellOf i))"

text \<open>\<^verbatim>\<open>i.metadata.dwellTime\<close> of an element that passed the filter above.\<close>

definition slotDwell :: "slot \<Rightarrow> number" where
  "slotDwell s = (case s of None \<Rightarrow> NaN | Some i \<Rightarrow> toNumber (dwellOf i))"

definition slotTimestamp :: "slot \<Rightarrow> number" where
  "slotTimestamp s = (case s of None \<Rightarrow> NaN | Some i \<Rightarrow> i_timestamp i)"

subsection \<open>Dopamine spike index, attention span, replay sensitivity, session length\<close>

definition calculateDopamineSpikeIndex :: "slot list \<Rightarrow> number" where
  "calculateDopamineSpikeIndex xs =
     (if length xs = 0 then Fin 0
      else
        let enterEvents = filter (hasAction Enter) xs;
            leaveEvents = filter leaveWithDwell xs
        in if length enterEvents = 0 \<or> length leaveEvents = 0 then Fin 0
           else
             let totalDwellTime =
                   sum_by (\<lambda>s. let d = (if truthy (slotDwell s) then slotDwell s else Fin 0)
                                in if num_gt d (Fin 0) then d else Fin 0) leaveEvents;
                 averageDwellTime = num_div totalDwellTime (of_count (length leaveEvents))
             in if num_eq averageDwellTime (Fin 0) \<or> \<not> isFinite averageDwellTime then Fin 0
                else
                  let result = num_div (of_count (length enterEvents))
                                       (num_div averageDwellTime (Fin 1000))
                  in if isFinite result then num_max (Fin 0) result else Fin 0)"

text \<open>
  The EWMA loop \<^verbatim>\<open>for (i = 1; i < n; i++)\<close> over the rest of the dwell times; \<open>None\<close>
  is the early \<^verbatim>\<open>return 0\<close> at a non-finite intermediate value.
\<close>

fun ewmaLoop :: "number \<Rightarrow> number list \<Rightarrow> number option" where
  "ewmaLoop ewma [] = Some ewma"
| "ewmaLoop ewma (d # ds) =
     (let ewma' = num_add (num_mul (fl 0.3) d) (num_mul (num_sub (Fin 1) (fl 0.3)) ewma)
      in if \<not> isFinite ewma' then None else ewmaLoop ewma' ds)"

definition calculateAttentionSpan :: "slot list \<Rightarrow> number" where
  "calculateAttentionSpan xs =
     (if length xs = 0 then Fin 0
      else
        let dwellTimes = filter (\<lambda>time. num_gt time (Fin 0) \<and> isFinite time)
                           (map slotDwell (filter leaveWithDwell xs))
        in case dwellTimes of
             [] \<Rightarrow> Fin 0
           | d0 # ds \<Rightarrow>
               (case ewmaLoop d0 ds of
                  None \<Rightarrow> Fin 0
                | Some ewma \<Rightarrow>
                    let result = num_div ewma (Fin 1000)
                    in if isFinite result then num_max (Fin 0) result else Fin 0))"

definition calculateReplaySensitivity :: "slot list \<Rightarrow> error + nat" where
  "calculateReplaySensitivity xs =
     (case elements xs of
        Inl e \<Rightarrow> Inl e
      | Inr ys \<Rightarrow> Inr (length (filter (\<lambda>i. action i = Replay) ys)))"

definition calculateSessionLength :: "env \<Rightarrow> ViewingSession \<Rightarrow> number" where
  "calculateSessionLength e session =
     (if \<not> truthyOpt (endTime session)
      then num_div (num_sub (Fin (of_int (now e))) (startTime session)) (Fin 60000)
      else num_div (num_sub (toNumber (endTime session)) (startTime session)) (Fin 60000))"

subsection \<open>Fatigue points\<close>

text \<open>
  The first pass: \<^verbatim>\<open>videoSequence\<close> maps a video to the value of the counter
  \<^verbatim>\<open>videoOrder\<close> at its first \<^verbatim>\<open>enter\<close>.
\<close>

fun trackVideoOrder ::
  "(string \<rightharpoonup> nat) \<Rightarrow> nat \<Rightarrow> VideoInteraction list \<Rightarrow> (string \<rightharpoonup> nat)" where
  "trackVideoOrder videoSequence videoOrder [] = videoSequence"
| "trackVideoOrder videoSequence videoOrder (i # rest) =
     (if videoSequence (videoId i) = None
      then trackVideoOrder (videoSequence(videoId i \<mapsto> videoOrder)) (Suc videoOrder) rest
      else trackVideoOrder videoSequence videoOrder rest)"

text \<open>
  The filter of the second pass, \<^verbatim>\<open>i.action === 'leave' && i.metadata.dwellTime\<close>,
  reads \<^verbatim>\<open>metadata\<close> without \<^verbatim>\<open>?.\<close>: a leave interaction with no metadata throws.
\<close>

fun leavesWithDwell :: "VideoInteraction list \<Rightarrow> error + VideoInteraction list" where
  "leavesWithDwell [] = Inr []"
| "leavesWithDwell (i # rest) =
     (if action i \<noteq> Leave
      then leavesWithDwell rest
      else case metadata i of
             None \<Rightarrow> Inl TypeError
           | Some m \<Rightarrow>
               (case leavesWithDwell rest of
                  Inl e \<Rightarrow> Inl e
                | Inr ys \<Rightarrow> Inr (if truthyOpt (dwellTime m) then i # ys else ys)))"

fun pushFatiguePoints :: "(string \<rightharpoonup> nat) \<Rightarrow> VideoInteraction list \<Rightarrow> FatiguePoint list" where
  "pushFatiguePoints videoSequence [] = []"
| "pushFatiguePoints videoSequence (i # rest) =
     (case videoSequence (videoId i) of
        None \<Rightarrow> pushFatiguePoints videoSequence rest
      | Some order \<Rightarrow>
          \<lparr>fp_videoOrder = order,
           fp_dwellTime = num_div (toNumber (dwellOf i)) (Fin 1000),
           fp_timestamp = i_timestamp i\<rparr> # pushFatiguePoints videoSequence rest)"

definition byVideoOrder :: "FatiguePoint \<Rightarrow> FatiguePoint \<Rightarrow> int" where
  "byVideoOrder a b = int (fp_videoOrder a) - int (fp_videoOrder b)"

definition generateFatiguePoints :: "slot list \<Rightarrow> error + FatiguePoint list" where
  "generateFatiguePoints xs =
     (case elements xs of
        Inl e \<Rightarrow> Inl e
      | Inr ys \<Rightarrow>
          let videoSequence = trackVideoOrder Map.empty 0 (filter (\<lambda>i. action i = Enter) ys)
          in case leavesWithDwell ys of
               Inl e \<Rightarrow> Inl e
             | Inr leaves \<Rightarrow> Inr (sort_by byVideoOrder (pushFatiguePoints videoSequence leaves)))"

subsection \<open>Circadian drift, fatigue slope, health\<close>

text \<open>\<^verbatim>\<open>new Date(t).getHours()\<close>: NaN for an invalid date.\<close>

definition getHours :: "env \<Rightarrow> number \<Rightarrow> number" where
  "getHours e t =
     (case t of
        Fin r \<Rightarrow> if \<bar>r\<bar> \<le> 8640000000000000 then of_count (localHour e r) else NaN
      | _ \<Rightarrow> NaN)"

definition detectCircadianDrift :: "env \<Rightarrow> number \<Rightarrow> number \<Rightarrow> bool" where
  "detectCircadianDrift e start sessionLengthMinutes =
     (let startHour = getHours e start;
          endHour = getHours e (num_add start (num_mul sessionLengthMinutes (Fin 60000)));
          isStartInDriftWindow = (num_ge startHour (Fin 23) \<or> num_lt startHour (Fin 6));
          isEndInDriftWindow = (num_ge endHour (Fin 23) \<or> num_lt endHour (Fin 6));
          spansCircadianWindow = (num_ge startHour (Fin 23) \<and> num_lt endHour (Fin 6))
      in isStartInDriftWindow \<or> isEndInDriftWindow \<or> spansCircadianWindow)"

definition calculateFatigueSlope :: "FatiguePoint list \<Rightarrow> number" where
  "calculateFatigueSlope points =
     (if length points < 2 then Fin 0
      else
        let n = of_count (length points);
            sumX = sum_by (\<lambda>p. of_count (fp_videoOrder p)) points;
            sumY = sum_by fp_dwellTime points;
            sumXY = sum_by (\<lambda>p. num_mul (of_count (fp_videoOrder p)) (fp_dwellTime p)) points;
            sumXX = sum_by (\<lambda>p. num_mul (of_count (fp_videoOrder p)) (of_count (fp_videoOrder p))) points;
            slope = num_div (num_sub (num_mul n sumXY) (num_mul sumX sumY))
                            (num_sub (num_mul n sumXX) (num_mul sumX sumX))
        in if isNaN slope then Fin 0 else slope)"

text \<open>\<^verbatim>\<open>[...].filter(Boolean).length\<close>.\<close>

definition countTrue :: "bool list \<Rightarrow> nat" where
  "countTrue bs = length (filter (\<lambda>b. b) bs)"

definition analyzeSessionHealth :: "ComputedMetrics \<Rightarrow> health" where
  "analyzeSessionHealth metrics =
     (let hasModerateAttentionSpan =
            (num_gt (attentionSpan metrics) (Fin 10) \<and> num_lt (attentionSpan metrics) (Fin 120));
          hasLowDopamineSpike = num_lt (dopamineSpikeIndex metrics) (Fin 2);
          hasLowReplayRate = (replaySensitivity metrics < 5);
          hasReasonableLength = num_lt (sessionLength metrics) (Fin 60);
          noCircadianDrift = (\<not> circadianDrift metrics);
          healthyIndicators =
            countTrue [hasModerateAttentionSpan, hasLowDopamineSpike, hasLowReplayRate,
                       hasReasonableLength, noCircadianDrift];
          hasShortAttentionSpan = num_lt (attentionSpan metrics) (Fin 5);
          hasHighDopamineSpike = num_gt (dopamineSpikeIndex metrics) (Fin 5);
          hasHighReplayRate = (replaySensitivity metrics > 10);
          hasLongSession = num_gt (sessionLength metrics) (Fin 120);
          hasCircadianDrift = circadianDrift metrics;
          doomscrollIndicators =
            countTrue [hasShortAttentionSpan, hasHighDopamineSpike, hasHighReplayRate,
                       hasLongSession, hasCircadianDrift]
      in if healthyIndicators \<ge> 3 then Healthy
         else if doomscrollIndicators \<ge> 3 then Doomscroll
         else UnknownHealth)"

subsection \<open>Advanced metrics\<close>

definition extractDwellTimes :: "slot list \<Rightarrow> number list" where
  "extractDwellTimes xs =
     filter (\<lambda>time. num_gt time (Fin 0) \<and> isFinite time)
       (map (\<lambda>s. num_div (slotDwell s) (Fin 1000)) (filter leaveWithDwell xs))"

definition calculateScrollMomentum :: "slot list \<Rightarrow> number" where
  "calculateScrollMomentum xs =
     (let dwellTimes = extractDwellTimes xs
      in if length dwellTimes = 0 then Fin 0
         else
           let quickSkips = length (filter (\<lambda>time. num_lt time (Fin 3)) dwellTimes);
               momentum = num_div (of_count quickSkips) (of_count (length dwellTimes))
           in if isFinite momentum then num_max (Fin 0) (num_min (Fin 1) momentum) else Fin 0)"

text \<open>\<^verbatim>\<open>Math.pow(x, 2)\<close>.\<close>

definition num_square :: "number \<Rightarrow> number" where
  "num_square x = num_mul x x"

definition calculateRewardVariability :: "number list \<Rightarrow> number" where
  "calculateRewardVariability dwellTimes =
     (if length dwellTimes < 2 then Fin 0
      else
        let mean = num_div (sum_by (\<lambda>time. time) dwellTimes) (of_count (length dwellTimes));
            variance = num_div (sum_by (\<lambda>time. num_square (num_sub time mean)) dwellTimes)
                               (of_count (length dwellTimes));
            standardDeviation = num_sqrt variance
        in if isFinite standardDeviation then standardDeviation else Fin 0)"

subsection \<open>Binge bursts\<close>

text \<open>An element of the local array \<^verbatim>\<open>dwellTimes\<close> of \<^verbatim>\<open>detectBingeBursts\<close>.\<close>

record DwellItem =
  item_index :: nat
  item_dwellTime :: number
  item_timestamp :: number

definition dwellItems :: "slot list \<Rightarrow> DwellItem list" where
  "dwellItems xs =
     map (\<lambda>(index, s). \<lparr>item_index = index,
                          item_dwellTime = num_div (slotDwell s) (Fin 1000),
                          item_timestamp = slotTimestamp s\<rparr>)
         (enumerate 0 (filter leaveWithDwell xs))"

text \<open>
  The record pushed for the current burst; \<^verbatim>\<open>burstTimestamps[0]\<close> of an empty array
  would be undefined, which does not occur while a burst is open.
\<close>

definition burstRecord :: "nat \<Rightarrow> number list \<Rightarrow> number list \<Rightarrow> BingeBurst" where
  "burstRecord burstStart burstDwellTimes burstTimestamps =
     \<lparr>startIndex = burstStart,
      endIndex = burstStart + length burstDwellTimes - 1,
      burstLength = length burstDwellTimes,
      averageDwellTime = num_div (sum_by (\<lambda>time. time) burstDwellTimes)
                                 (of_count (length burstDwellTimes)),
      bb_timestamp = (case burstTimestamps of [] \<Rightarrow> NaN | t # _ \<Rightarrow> t)\<rparr>"

text \<open>
  \<^verbatim>\<open>if (burstStart !== -1 && burstDwellTimes.length >= 5) bursts.push(...)\<close>, with
  \<open>None\<close> for \<^verbatim>\<open>burstStart === -1\<close>.
\<close>

definition closeBurst ::
  "BingeBurst list \<Rightarrow> nat option \<Rightarrow> number list \<Rightarrow> number list \<Rightarrow> BingeBurst list" where
  "closeBurst bursts burstStart burstDwellTimes burstTimestamps =
     (case burstStart of
        None \<Rightarrow> bursts
      | Some start \<Rightarrow>
          if length burstDwellTimes \<ge> 5
          then bursts @ [burstRecord start burstDwellTimes burstTimestamps]
          else bursts)"

text \<open>The loop over \<^verbatim>\<open>dwellTimes\<close> from index \<open>i\<close>, and the check after it.\<close>

fun burstLoop ::
  "nat \<Rightarrow> DwellItem list \<Rightarrow> BingeBurst list \<Rightarrow> nat option \<Rightarrow> number list \<Rightarrow> number list
   \<Rightarrow> BingeBurst list" where
  "burstLoop i [] bursts burstStart burstDwellTimes burstTimestamps =
     closeBurst bursts burstStart burstDwellTimes burstTimestamps"
| "burstLoop i (item # rest) bursts burstStart burstDwellTimes burstTimestamps =
     (if num_lt (item_dwellTime item) (Fin 5)
      then (if burstStart = None
            then burstLoop (Suc i) rest bursts (Some i)
                   [item_dwellTime item] [item_timestamp item]
            else burstLoop (Suc i) rest bursts burstStart
                   (burstDwellTimes @ [item_dwellTime item])
                   (burstTimestamps @ [item_timestamp item]))
      else burstLoop (Suc i) rest
             (closeBurst bursts burstStart burstDwellTimes burstTimestamps) None [] [])"

definition detectBingeBursts :: "slot list \<Rightarrow> BingeBurst list" where
  "detectBingeBursts xs = burstLoop 0 (dwellItems xs) [] None [] []"

subsection \<open>Engagement half-life\<close>

text \<open>\<^verbatim>\<open>xs.slice(a, b)\<close> for \<open>0 \<le> a\<close>.\<close>

definition slice :: "nat \<Rightarrow> nat \<Rightarrow> 'a list \<Rightarrow> 'a list" where
  "slice a b xs = take (b - a) (drop a xs)"

definition currentAttention :: "FatiguePoint list \<Rightarrow> nat \<Rightarrow> number" where
  "currentAttention sortedPoints i =
     (let windowSize = min 3 (i + 1);
          windowStart = (i + 1) - windowSize
      in num_div (sum_by fp_dwellTime (slice windowStart (i + 1) sortedPoints))
                 (of_count windowSize))"

function halfLifeLoop :: "FatiguePoint list \<Rightarrow> number \<Rightarrow> nat \<Rightarrow> nat" where
  "halfLifeLoop sortedPoints halfAttention i =
     (if i < length sortedPoints
      then (if num_le (currentAttention sortedPoints i) halfAttention
            then fp_videoOrder (sortedPoints ! i)
            else halfLifeLoop sortedPoints halfAttention (Suc i))
      else fp_videoOrder (last sortedPoints))"
  by pat_completeness auto
termination
  by (relation "measure (\<lambda>(sortedPoints, halfAttention, i). length sortedPoints - i)") auto

definition calculateEngagementHalfLife :: "FatiguePoint list \<Rightarrow> nat" where
  "calculateEngagementHalfLife points =
     (if length points < 3 then 0
      else
        let sortedPoints = sort_by byVideoOrder points;
            initialAttention = num_div (sum_by fp_dwellTime (slice 0 3 sortedPoints)) (Fin 3);
            halfAttention = num_div initialAttention (Fin 2)
        in halfLifeLoop sortedPoints halfAttention 3)"

subsection \<open>Archetype, cognitive load, habit strength, novelty bias\<close>

definition classifySessionArchetype :: "ComputedMetrics \<Rightarrow> archetype" where
  "classifySessionArchetype metrics =
     (if num_lt (sessionLength metrics) (Fin 0.5) \<or> num_eq (attentionSpan metrics) (Fin 0)
      then UnknownArchetype
      else
        let highAttention = num_gt (attentionSpan metrics) (Fin 15);
            moderateAttention =
              (num_gt (attentionSpan metrics) (Fin 8) \<and> num_le (attentionSpan metrics) (Fin 15));
            lowAttention = num_le (attentionSpan metrics) (Fin 8);
            lowMomentum = num_lt (scrollMomentum metrics) (fl 0.3);
            moderateMomentum =
              (num_ge (scrollMomentum metrics) (fl 0.3) \<and> num_lt (scrollMomentum metrics) (fl 0.6));
            highMomentum = num_ge (scrollMomentum metrics) (fl 0.6);
            manyBursts = (length (bingeBursts metrics) \<ge> 2)
        in if highAttention \<and> lowMomentum then Explorer
           else if lowAttention \<and> (highMomentum \<or> manyBursts) then Doomscroller
           else if moderateAttention \<and> moderateMomentum then Sampler
           else if highMomentum \<or> manyBursts then Doomscroller
           else if highAttention then Explorer
           else Sampler)"

text \<open>
  \<^verbatim>\<open>i.action === 'leave' && i.metadata?.dwellTime && i.metadata.dwellTime < 2000\<close>.
\<close>

definition rapidTransition :: "VideoInteraction \<Rightarrow> bool" where
  "rapidTransition i =
     (action i = Leave \<and> truthyOpt (dwellOf i) \<and> num_lt (toNumber (dwellOf i)) (Fin 2000))"

text \<open>The three functions below catch their own exceptions and return 0.\<close>

definition calculateCognitiveLoad :: "slot list \<Rightarrow> number" where
  "calculateCognitiveLoad xs =
     (if length xs = 0 then Fin 0
      else case elements xs of
             Inl e \<Rightarrow> Fin 0
           | Inr ys \<Rightarrow>
               let scrollEvents = length (filter (\<lambda>i. action i = Scroll) ys);
                   rapidTransitions = length (filter rapidTransition ys);
                   cognitiveStressors = scrollEvents + rapidTransitions;
                   cognitiveLoad = num_div (of_count cognitiveStressors) (of_count (length xs))
               in if isFinite cognitiveLoad
                  then num_max (Fin 0) (num_min (Fin 1) cognitiveLoad) else Fin 0)"

definition calculateHabitStrength :: "slot list \<Rightarrow> number" where
  "calculateHabitStrength xs =
     (let dwellTimes = extractDwellTimes xs
      in if length dwellTimes < 3 then Fin 0
         else
           let mean = num_div (sum_by (\<lambda>time. time) dwellTimes) (of_count (length dwellTimes));
               variance = num_div (sum_by (\<lambda>time. num_square (num_sub time mean)) dwellTimes)
                                  (of_count (length dwellTimes))
           in if num_eq mean (Fin 0) then Fin 0
              else
                let coefficientOfVariation = num_div (num_sqrt variance) mean;
                    habitStrength = num_max (Fin 0) (num_sub (Fin 1) coefficientOfVariation)
                in if isFinite habitStrength then num_min (Fin 1) habitStrength else Fin 0)"

definition calculateNoveltyBias :: "slot list \<Rightarrow> number" where
  "calculateNoveltyBias xs =
     (case elements xs of
        Inl e \<Rightarrow> Fin 0
      | Inr ys \<Rightarrow>
          let videoInteractions = filter (\<lambda>i. action i = Enter) ys
          in if length videoInteractions = 0 then Fin 0
             else
               let uniqueVideos = length (remdups (map videoId videoInteractions));
                   noveltyBias = num_div (of_count uniqueVideos) (of_count (length videoInteractions))
               in if isFinite noveltyBias
                  then num_max (Fin 0) (num_min (Fin 1) noveltyBias) else Fin 0)"

subsection \<open>computeMetrics\<close>

text \<open>The object returned by the \<^verbatim>\<open>catch\<close> block of \<^verbatim>\<open>computeMetrics\<close>.\<close>

definition defaultMetrics :: "env \<Rightarrow> ComputedMetrics" where
  "defaultMetrics e =
     \<lparr>dopamineSpikeIndex = Fin 0,
      attentionSpan = Fin 0,
      replaySensitivity = 0,
      sessionLength = Fin 0,
      fatiguePoints = [],
      circadianDrift = False,
      healthClassification = UnknownHealth,
      confidence = Fin 0,
      m_timestamp = now e,
      scrollMomentum = Fin 0,
      rewardVariability = Fin 0,
      bingeBursts = [],
      engagementHalfLife = 0,
      cognitiveLoad = Fin 0,
      habitStrength = Fin 0,
      noveltyBias = Fin 0,
      sessionArchetype = UnknownArchetype\<rparr>"

text \<open>The body of the \<^verbatim>\<open>try\<close> block: \<open>Inl\<close> is an exception thrown inside it.\<close>

definition computeMetrics_try :: "env \<Rightarrow> session_arg \<Rightarrow> error + ComputedMetrics" where
  "computeMetrics_try e arg =
     (case arg of
        NoSession \<Rightarrow> Inl (Error ''Invalid session data'')
      | Sess session \<Rightarrow>
          (case interactions session of
             NotAnArray \<Rightarrow> Inl (Error ''Invalid session data'')
           | Arr xs \<Rightarrow>
               (let sessionLen = calculateSessionLength e session
                in case generateFatiguePoints xs of
                     Inl err \<Rightarrow> Inl err
                   | Inr points \<Rightarrow>
                       (let dwellTimes = extractDwellTimes xs
                        in case calculateReplaySensitivity xs of
                             Inl err \<Rightarrow> Inl err
                           | Inr replays \<Rightarrow>
                               (let metrics =
                                  \<lparr>dopamineSpikeIndex = calculateDopamineSpikeIndex xs,
                                   attentionSpan = calculateAttentionSpan xs,
                                   replaySensitivity = replays,
                                   sessionLength = sessionLen,
                                   fatiguePoints = points,
                                   circadianDrift =
                                     detectCircadianDrift e (startTime session) sessionLen,
                                   healthClassification = UnknownHealth,
                                   confidence = fl 0.8,
                                   m_timestamp = now e,
                                   scrollMomentum = calculateScrollMomentum xs,
                                   rewardVariability = calculateRewardVariability dwellTimes,
                                   bingeBursts = detectBingeBursts xs,
                                   engagementHalfLife = calculateEngagementHalfLife points,
                                   cognitiveLoad = calculateCognitiveLoad xs,
                                   habitStrength = calculateHabitStrength xs,
                                   noveltyBias = calculateNoveltyBias xs,
                                   sessionArchetype = UnknownArchetype\<rparr>;
                                  metrics1 =
                                    metrics\<lparr>healthClassification := analyzeSessionHealth metrics\<rparr>;
                                  metrics2 =
                                    metrics1\<lparr>sessionArchetype := classifySessionArchetype metrics1\<rparr>
                                in Inr metrics2)))))"

definition computeMetrics :: "env \<Rightarrow> session_arg \<Rightarrow> ComputedMetrics" where
  "computeMetrics e arg =
     (case computeMetrics_try e arg of
        Inr metrics \<Rightarrow> metrics
      | Inl err \<Rightarrow> defaultMetrics e)"

section \<open>Classifier\<close>

record SessionFeatures =
  f_sessionLength :: number
  f_attentionSpan :: number
  f_dopamineSpikeIndex :: number
  f_replaySensitivity :: number
  f_fatigueSlope :: number
  f_circadianDrift :: number
  f_videoCount :: number
  f_timeOfDay :: number
  f_scrollMomentum :: number
  f_rewardVariability :: number
  f_bingeBursts :: number
  f_engagementHalfLife :: number

record AIClassificationResult =
  classification :: health
  r_confidence :: number
  features :: SessionFeatures
  modelVersion :: string

text \<open>
  The arguments of the classifier at run time.  The session is null or undefined, or an
  object (\<open>session_arg\<close>).  The metrics are null or undefined, or an object without a
  \<^verbatim>\<open>fatiguePoints\<close> array whose other fields are those of the record, or a complete
  \<^verbatim>\<open>ComputedMetrics\<close> object.
\<close>

datatype metrics_arg = NoMetrics | NoFatiguePoints ComputedMetrics | Metrics ComputedMetrics

text \<open>\<^verbatim>\<open>x || 0\<close> on a number.\<close>

definition orZero :: "number \<Rightarrow> number" where
  "orZero x = (if truthy x then x else Fin 0)"

text \<open>
  \<^verbatim>\<open>extractFeatures\<close> reads \<^verbatim>\<open>session.startTime\<close> and then passes
  \<^verbatim>\<open>metrics.fatiguePoints\<close> to \<^verbatim>\<open>calculateFatigueSlope\<close>, which reads its
  \<^verbatim>\<open>length\<close>: a null session, null metrics and a missing array each throw a
  \<^verbatim>\<open>TypeError\<close>.
\<close>

definition extractFeatures :: "env \<Rightarrow> session_arg \<Rightarrow> metrics_arg \<Rightarrow> error + SessionFeatures" where
  "extractFeatures e session metrics =
     (case session of
        NoSession \<Rightarrow> Inl TypeError
      | Sess s \<Rightarrow>
          (case metrics of
             NoMetrics \<Rightarrow> Inl TypeError
           | NoFatiguePoints m \<Rightarrow> Inl TypeError
           | Metrics m \<Rightarrow>
               (let fatigueSlope = calculateFatigueSlope (fatiguePoints m)
                in Inr \<lparr>f_sessionLength = sessionLength m,
                        f_attentionSpan = attentionSpan m,
                        f_dopamineSpikeIndex = dopamineSpikeIndex m,
                        f_replaySensitivity = of_count (replaySensitivity m),
                        f_fatigueSlope = fatigueSlope,
                        f_circadianDrift = (if circadianDrift m then Fin 1 else Fin 0),
                        f_videoCount = videoCount s,
                        f_timeOfDay = getHours e (startTime s),
                        f_scrollMomentum = orZero (scrollMomentum m),
                        f_rewardVariability = orZero (rewardVariability m),
                        f_bingeBursts = orZero (of_count (length (bingeBursts m))),
                        f_engagementHalfLife = orZero (of_count (engagementHalfLife m))\<rparr>)))"

definition normalizeFeatures :: "SessionFeatures \<Rightarrow> number list" where
  "normalizeFeatures f =
     [num_min (num_div (f_sessionLength f) (Fin 200)) (Fin 1),
      num_min (num_div (f_attentionSpan f) (Fin 100)) (Fin 1),
      num_min (num_div (f_dopamineSpikeIndex f) (Fin 10)) (Fin 1),
      num_min (num_div (f_replaySensitivity f) (Fin 20)) (Fin 1),
      num_max (Fin 0) (num_min (num_div (num_add (f_fatigueSlope f) (Fin 2)) (Fin 4)) (Fin 1)),
      f_circadianDrift f,
      num_min (num_div (f_videoCount f) (Fin 400)) (Fin 1),
      num_div (f_timeOfDay f) (Fin 24),
      num_min (f_scrollMomentum f) (Fin 1),
      num_min (num_div (f_rewardVariability f) (Fin 40)) (Fin 1),
      num_min (num_div (f_bingeBursts f) (Fin 10)) (Fin 1),
      num_min (num_div (f_engagementHalfLife f) (Fin 50)) (Fin 1)]"

text \<open>
  The prediction model is opaque: \<^verbatim>\<open>model.predict(tensor2d(rows))\<close> followed by
  \<^verbatim>\<open>await prediction.data()\<close> either throws or yields the array of outputs.
\<close>

type_synonym predictor = "number list list \<Rightarrow> error + number list"

text \<open>
  The static state of the classifier at a call: \<^verbatim>\<open>this.model\<close>, and what awaiting
  \<^verbatim>\<open>this.initialize()\<close> does when the model is null: it throws, or it returns with
  \<^verbatim>\<open>this.model\<close> as given (still null when loading is under way).
\<close>

record classifier =
  model :: "predictor option"
  initialize :: "error + predictor option"

definition currentModelVersion :: string where
  "currentModelVersion = ''1.0.0''"

text \<open>\<^verbatim>\<open>if (!this.model) await this.initialize()\<close>, then the value of \<^verbatim>\<open>this.model\<close>.\<close>

definition ensureModel :: "classifier \<Rightarrow> error + predictor option" where
  "ensureModel c = (case model c of None \<Rightarrow> initialize c | Some m \<Rightarrow> Inr (Some m))"

text \<open>\<^verbatim>\<open>predictionData[index]\<close>: undefined past the end, which compares like NaN.\<close>

definition outputAt :: "number list \<Rightarrow> nat \<Rightarrow> number" where
  "outputAt predictionData index =
     (if index < length predictionData then predictionData ! index else NaN)"

text \<open>\<^verbatim>\<open>metrics.healthClassification\<close>: a \<^verbatim>\<open>TypeError\<close> when the metrics are null.\<close>

definition healthOf :: "metrics_arg \<Rightarrow> error + health" where
  "healthOf metrics =
     (case metrics of
        NoMetrics \<Rightarrow> Inl TypeError
      | NoFatiguePoints m \<Rightarrow> Inr (healthClassification m)
      | Metrics m \<Rightarrow> Inr (healthClassification m))"

text \<open>
  The object literal that the \<^verbatim>\<open>catch\<close> block of \<^verbatim>\<open>classifySession\<close> and the
  fallback branches of \<^verbatim>\<open>classifySessions\<close> return.  Its fields are evaluated in
  order, \<^verbatim>\<open>this.extractFeatures(session, metrics)\<close> among them, outside any
  \<^verbatim>\<open>try\<close> block: an exception there leaves the function.
\<close>

definition fallbackResult ::
  "env \<Rightarrow> session_arg \<Rightarrow> metrics_arg \<Rightarrow> error + AIClassificationResult" where
  "fallbackResult e session metrics =
     (case healthOf metrics of
        Inl err \<Rightarrow> Inl err
      | Inr h \<Rightarrow>
          (case extractFeatures e session metrics of
             Inl err \<Rightarrow> Inl err
           | Inr feats \<Rightarrow>
               Inr \<lparr>classification = h,
                    r_confidence = fl 0.3,
                    features = feats,
                    modelVersion = ''fallback''\<rparr>))"

text \<open>The \<^verbatim>\<open>try\<close> block of \<^verbatim>\<open>classifySession\<close>.\<close>

definition classifySession_try ::
  "env \<Rightarrow> classifier \<Rightarrow> session_arg \<Rightarrow> metrics_arg \<Rightarrow> error + AIClassificationResult" where
  "classifySession_try e c session metrics =
     (case ensureModel c of
        Inl err \<Rightarrow> Inl err
      | Inr None \<Rightarrow> Inl (Error ''Model not available'')
      | Inr (Some m) \<Rightarrow>
          (case extractFeatures e session metrics of
             Inl err \<Rightarrow> Inl err
           | Inr feats \<Rightarrow>
               (let normalizedFeatures = normalizeFeatures feats
                in case m [normalizedFeatures] of
                     Inl err \<Rightarrow> Inl err
                   | Inr predictionData \<Rightarrow>
                       (let p = outputAt predictionData 0;
                            cls = (if num_gt p (fl 0.7) then Doomscroll
                                   else if num_lt p (fl 0.3) then Healthy
                                   else UnknownHealth)
                        in Inr \<lparr>classification = cls,
                                r_confidence =
                                  (if cls = UnknownHealth then Fin 0.5
                                   else num_mul (num_abs (num_sub p (Fin 0.5))) (Fin 2)),
                                features = feats,
                                modelVersion = currentModelVersion\<rparr>))))"

text \<open>
  \<^verbatim>\<open>classifySession\<close>: the promise is fulfilled with a result (\<open>Inr\<close>) or rejected
  with the exception that its \<^verbatim>\<open>catch\<close> block throws (\<open>Inl\<close>).
\<close>

definition classifySession ::
  "env \<Rightarrow> classifier \<Rightarrow> session_arg \<Rightarrow> metrics_arg \<Rightarrow> error + AIClassificationResult" where
  "classifySession e c session metrics =
     (case classifySession_try e c session metrics of
        Inr r \<Rightarrow> Inr r
      | Inl err \<Rightarrow> fallbackResult e session metrics)"

text \<open>\<^verbatim>\<open>xs.map(f)\<close> for a callback that may throw: the first exception leaves the loop.\<close>

fun mapE :: "('a \<Rightarrow> error + 'b) \<Rightarrow> 'a list \<Rightarrow> error + 'b list" where
  "mapE f [] = Inr []"
| "mapE f (x # xs) =
     (case f x of
        Inl err \<Rightarrow> Inl err
      | Inr y \<Rightarrow> (case mapE f xs of Inl err \<Rightarrow> Inl err | Inr ys \<Rightarrow> Inr (y # ys)))"

text \<open>The \<^verbatim>\<open>try\<close> block of \<^verbatim>\<open>classifySessions\<close>, with the model \<open>m\<close>.\<close>

definition classifySessions_try ::
  "env \<Rightarrow> predictor \<Rightarrow> (session_arg \<times> metrics_arg) list \<Rightarrow> error + AIClassificationResult list" where
  "classifySessions_try e m sessions =
     (case mapE (\<lambda>(session, metrics).
                   case extractFeatures e session metrics of
                     Inl err \<Rightarrow> Inl err
                   | Inr feats \<Rightarrow> Inr (normalizeFeatures feats)) sessions of
        Inl err \<Rightarrow> Inl err
      | Inr allFeatures \<Rightarrow>
          (case m allFeatures of
             Inl err \<Rightarrow> Inl err
           | Inr predictionData \<Rightarrow>
               mapE (\<lambda>(index, (session, metrics)).
                       let p = outputAt predictionData index;
                           cls = (if num_gt p (fl 0.7) then Doomscroll
                                  else if num_lt p (fl 0.3) then Healthy
                                  else UnknownHealth)
                       in case extractFeatures e session metrics of
                            Inl err \<Rightarrow> Inl err
                          | Inr feats \<Rightarrow>
                              Inr \<lparr>classification = cls,
                                   r_confidence =
                                     (if cls = UnknownHealth then Fin 0.5
                                      else num_mul (num_abs (num_sub p (Fin 0.5))) (Fin 2)),
                                   features = feats,
                                   modelVersion = currentModelVersion\<rparr>)
                    (enumerate 0 sessions)))"

text \<open>
  \<^verbatim>\<open>classifySessions\<close> awaits \<^verbatim>\<open>initialize\<close> and maps the sessions to fallback
  results outside its \<^verbatim>\<open>try\<close> block, and again in its \<^verbatim>\<open>catch\<close> block: those
  exceptions reject the promise.
\<close>

definition classifySessions ::
  "env \<Rightarrow> classifier \<Rightarrow> (session_arg \<times> metrics_arg) list
   \<Rightarrow> error + AIClassificationResult list" where
  "classifySessions e c sessions =
     (case ensureModel c of
        Inl err \<Rightarrow> Inl err
      | Inr None \<Rightarrow> mapE (\<lambda>(session, metrics). fallbackResult e session metrics) sessions
      | Inr (Some m) \<Rightarrow>
          if length sessions = 0
          then mapE (\<lambda>(session, metrics). fallbackResult e session metrics) sessions
          else
            (case classifySessions_try e m sessions of
               Inr results \<Rightarrow> Inr results
             | Inl err \<Rightarrow>
                 mapE (\<lambda>(session, metrics). fallbackResult e session metrics) sessions))"

section \<open>Scheduler\<close>

datatype priority = High | Normal | Low

text \<open>
  A queue entry.  \<^verbatim>\<open>scheduleAnalysis\<close> reads \<^verbatim>\<open>session.id\<close>, so the session of
  an entry is an object; its metrics are whatever the caller passed.
\<close>

record ScheduledAnalysis =
  sessionId :: string
  a_session :: ViewingSession
  a_metrics :: metrics_arg
  a_priority :: priority
  a_timestamp :: int
  retryCount :: nat

record AnalysisResult =
  r_sessionId :: string
  r_result :: AIClassificationResult
  r_processingTime :: number
  r_success :: bool
  r_error :: "string option"

text \<open>
  An element of the array returned by \<^verbatim>\<open>processBatch\<close>: a classification with its
  processing time, or a failure with its error message.
\<close>

datatype batch_result = Classified AIClassificationResult number | NotClassified string

text \<open>
  A registered callback is identified by a number; invoking it appends the callback and
  its argument to the log \<open>delivered\<close>.  Callbacks are taken not to throw and not to
  call back into the scheduler.  \<open>batch\<close> is the local array of a \<^verbatim>\<open>processQueue\<close>
  call that is suspended at \<^verbatim>\<open>await this.processBatch(batch)\<close>.
\<close>

type_synonym callback = nat

record scheduler =
  analysisQueue :: "ScheduledAnalysis list"
  isProcessing :: bool
  callbacks :: "string \<rightharpoonup> callback"
  batch :: "ScheduledAnalysis list"
  delivered :: "(callback \<times> AnalysisResult) list"

definition maxRetries :: nat where
  "maxRetries = 3"

definition batchSize :: nat where
  "batchSize = 5"

definition newScheduler :: scheduler where
  "newScheduler =
     \<lparr>analysisQueue = [], isProcessing = False, callbacks = Map.empty, batch = [],
      delivered = []\<rparr>"

definition priorityOrder :: "priority \<Rightarrow> int" where
  "priorityOrder p = (case p of High \<Rightarrow> 0 | Normal \<Rightarrow> 1 | Low \<Rightarrow> 2)"

text \<open>The comparator of \<^verbatim>\<open>sortQueue\<close>.\<close>

definition compareAnalyses :: "ScheduledAnalysis \<Rightarrow> ScheduledAnalysis \<Rightarrow> int" where
  "compareAnalyses a b =
     (let priorityDiff = priorityOrder (a_priority a) - priorityOrder (a_priority b)
      in if priorityDiff \<noteq> 0 then priorityDiff else a_timestamp a - a_timestamp b)"

definition sortQueue :: "ScheduledAnalysis list \<Rightarrow> ScheduledAnalysis list" where
  "sortQueue queue = sort_by compareAnalyses queue"

definition scheduleAnalysis ::
  "env \<Rightarrow> ViewingSession \<Rightarrow> metrics_arg \<Rightarrow> priority \<Rightarrow> callback option \<Rightarrow> scheduler
   \<Rightarrow> scheduler" where
  "scheduleAnalysis e session metrics prio cb s =
     (let analysis =
            \<lparr>sessionId = session_id session, a_session = session, a_metrics = metrics,
             a_priority = prio, a_timestamp = now e, retryCount = 0\<rparr>;
          queue1 = filter (\<lambda>a. sessionId a \<noteq> session_id session) (analysisQueue s);
          queue2 = queue1 @ [analysis];
          s1 = s\<lparr>analysisQueue := sortQueue queue2\<rparr>
      in case cb of
           None \<Rightarrow> s1
         | Some f \<Rightarrow> s1\<lparr>callbacks := (callbacks s1)(session_id session \<mapsto> f)\<rparr>)"

definition scheduleRealTimeAnalysis ::
  "env \<Rightarrow> ViewingSession \<Rightarrow> metrics_arg \<Rightarrow> callback option \<Rightarrow> scheduler \<Rightarrow> scheduler" where
  "scheduleRealTimeAnalysis e session metrics cb s = scheduleAnalysis e session metrics High cb s"

text \<open>
  \<^verbatim>\<open>individualError instanceof Error ? individualError.message : 'Unknown error'\<close>:
  both kinds of exception are instances of \<^verbatim>\<open>Error\<close>; the message of a
  \<^verbatim>\<open>TypeError\<close> is worded by the JavaScript engine.
\<close>

definition typeErrorMessage :: string where
  "typeErrorMessage = ''Cannot read properties of undefined''"

definition errorMessage :: "error \<Rightarrow> string" where
  "errorMessage err = (case err of TypeError \<Rightarrow> typeErrorMessage | Error msg \<Rightarrow> msg)"

text \<open>
  \<^verbatim>\<open>processBatch\<close> for the entries of a batch: one call of
  \<^verbatim>\<open>classifySessions\<close> and, when that rejects, one call of \<^verbatim>\<open>classifySession\<close>
  for each entry, whose rejection becomes a failure with the message of the exception.  \<open>elapsed i\<close> is the processing time that
  the readings of \<^verbatim>\<open>performance.now()\<close> give for result \<open>i\<close>.  The classifier \<open>c\<close>
  is its state when \<^verbatim>\<open>processBatch\<close> starts; a model that \<^verbatim>\<open>initialize\<close> sets is
  the one that \<open>ensureModel\<close> gives to each of these calls.
\<close>

definition processBatch ::
  "env \<Rightarrow> classifier \<Rightarrow> (nat \<Rightarrow> number) \<Rightarrow> ScheduledAnalysis list \<Rightarrow> batch_result list" where
  "processBatch e c elapsed entries =
     (case classifySessions e c
             (map (\<lambda>analysis. (Sess (a_session analysis), a_metrics analysis)) entries) of
        Inr classifications \<Rightarrow>
          map (\<lambda>(index, classification). Classified classification (elapsed index))
              (enumerate 0 classifications)
      | Inl err \<Rightarrow>
          map (\<lambda>(index, analysis).
                 case classifySession e c (Sess (a_session analysis)) (a_metrics analysis) of
                   Inr result \<Rightarrow> Classified result (elapsed index)
                 | Inl individualError \<Rightarrow> NotClassified (errorMessage individualError))
              (enumerate 0 entries))"

text \<open>\<^verbatim>\<open>error || 'Max retries exceeded'\<close>: the empty string is falsy.\<close>

definition errorOrDefault :: "string \<Rightarrow> string" where
  "errorOrDefault err = (if err = [] then ''Max retries exceeded'' else err)"

text \<open>
  The argument that \<^verbatim>\<open>handleFailure\<close> builds for the callback once the retries are
  used up.  Its \<^verbatim>\<open>features\<close> field is \<^verbatim>\<open>AIClassifier.extractFeatures\<close> of the
  entry, evaluated before the callback is called: when that throws, there is no argument
  and no call.
\<close>

definition terminalResult :: "env \<Rightarrow> ScheduledAnalysis \<Rightarrow> string \<Rightarrow> error + AnalysisResult" where
  "terminalResult e analysis err =
     (case extractFeatures e (Sess (a_session analysis)) (a_metrics analysis) of
        Inl thrown \<Rightarrow> Inl thrown
      | Inr feats \<Rightarrow>
          Inr \<lparr>r_sessionId = sessionId analysis,
               r_result = \<lparr>classification = UnknownHealth,
                           r_confidence = Fin 0,
                           features = feats,
                           modelVersion = ''failed''\<rparr>,
               r_processingTime = Fin 0,
               r_success = False,
               r_error = Some (errorOrDefault err)\<rparr>)"

text \<open>
  \<^verbatim>\<open>handleFailure\<close> returns with the state it leaves (\<open>Inr\<close>) or throws (\<open>Inl\<close>); it
  throws before it has called the callback or changed the queue or the registrations.
\<close>

definition handleFailure :: "env \<Rightarrow> ScheduledAnalysis \<Rightarrow> string \<Rightarrow> scheduler \<Rightarrow> error + scheduler" where
  "handleFailure e analysis err s =
     (let analysis1 = analysis\<lparr>retryCount := retryCount analysis + 1\<rparr>
      in if retryCount analysis1 \<le> maxRetries
         then
           let analysis2 =
                 analysis1\<lparr>a_priority := Low,
                           a_timestamp := now e + int (retryCount analysis1) * 2000\<rparr>
           in Inr (s\<lparr>analysisQueue := sortQueue (analysisQueue s @ [analysis2])\<rparr>)
         else
           case callbacks s (sessionId analysis1) of
             None \<Rightarrow> Inr s
           | Some f \<Rightarrow>
               (case terminalResult e analysis1 err of
                  Inl thrown \<Rightarrow> Inl thrown
                | Inr r \<Rightarrow>
                    Inr (s\<lparr>delivered := delivered s @ [(f, r)],
                           callbacks := (callbacks s)(sessionId analysis1 := None)\<rparr>)))"

text \<open>The body of \<^verbatim>\<open>results.forEach((result, index) => ...)\<close> for one result.\<close>

definition handleResult ::
  "env \<Rightarrow> scheduler \<Rightarrow> batch_result \<times> ScheduledAnalysis \<Rightarrow> error + scheduler" where
  "handleResult e s ra =
     (case ra of
        (Classified res processingTime, analysis) \<Rightarrow>
          (case callbacks s (sessionId analysis) of
             None \<Rightarrow> Inr s
           | Some f \<Rightarrow>
               Inr (s\<lparr>delivered := delivered s @
                         [(f, \<lparr>r_sessionId = sessionId analysis, r_result = res,
                               r_processingTime = processingTime, r_success = True,
                               r_error = None\<rparr>)],
                      callbacks := (callbacks s)(sessionId analysis := None)\<rparr>))
      | (NotClassified err, analysis) \<Rightarrow> handleFailure e analysis err s)"

text \<open>
  The loop \<^verbatim>\<open>results.forEach\<close> inside the \<^verbatim>\<open>try\<close> block of \<^verbatim>\<open>processQueue\<close>:
  an exception thrown by the body ends the loop and is logged by the \<^verbatim>\<open>catch\<close>
  block, so the results after it are not handled.
\<close>

fun handleResults ::
  "env \<Rightarrow> scheduler \<Rightarrow> (batch_result \<times> ScheduledAnalysis) list \<Rightarrow> scheduler" where
  "handleResults e s [] = s"
| "handleResults e s (ra # rest) =
     (case handleResult e s ra of
        Inr s' \<Rightarrow> handleResults e s' rest
      | Inl thrown \<Rightarrow> s)"

text \<open>
  A tick, up to its \<^verbatim>\<open>await\<close>: nothing happens while a batch is in progress or the
  queue is empty; otherwise the first \<open>batchSize\<close> entries are spliced off.
\<close>

definition processQueue_begin :: "scheduler \<Rightarrow> scheduler" where
  "processQueue_begin s =
     (if isProcessing s \<or> length (analysisQueue s) = 0 then s
      else s\<lparr>isProcessing := True,
             batch := take batchSize (analysisQueue s),
             analysisQueue := drop batchSize (analysisQueue s)\<rparr>)"

text \<open>
  The rest of that \<^verbatim>\<open>processQueue\<close> call, once \<^verbatim>\<open>processBatch\<close> has returned
  \<open>results\<close>, one per entry of the batch; \<open>e\<close> holds the clock reading of this
  synchronous run.  The \<^verbatim>\<open>finally\<close> block resets \<^verbatim>\<open>isProcessing\<close>.
\<close>

definition processQueue_finish :: "env \<Rightarrow> batch_result list \<Rightarrow> scheduler \<Rightarrow> scheduler" where
  "processQueue_finish e results s =
     (if \<not> isProcessing s then s
      else (handleResults e s (zip results (batch s)))\<lparr>isProcessing := False, batch := []\<rparr>)"


definition clearQueue :: "scheduler \<Rightarrow> scheduler" where
  "clearQueue s = s\<lparr>analysisQueue := [], callbacks := Map.empty\<rparr>"

definition clearSessionAnalysis :: "string \<Rightarrow> scheduler \<Rightarrow> scheduler" where
  "clearSessionAnalysis sid s =
     s\<lparr>analysisQueue := filter (\<lambda>a. sessionId a \<noteq> sid) (analysisQueue s),
       callbacks := (callbacks s)(sid := None)\<rparr>"

text \<open>
  The states the scheduler can be in: those reached from a new scheduler by calls of
  its operations, where a call of \<^verbatim>\<open>processQueue\<close> that dequeued a batch resumes, with
  one result per entry, after any number of other calls.  The results are any that a
  classifier could give, those of \<open>processBatch\<close> among them.
\<close>

inductive reachable :: "scheduler \<Rightarrow> bool" where
  reach_new: "reachable newScheduler"
| reach_schedule: "reachable s \<Longrightarrow> reachable (scheduleAnalysis e session metrics prio cb s)"
| reach_begin: "reachable s \<Longrightarrow> reachable (processQueue_begin s)"
| reach_finish:
    "reachable s \<Longrightarrow> isProcessing s \<Longrightarrow> length results = length (batch s)
     \<Longrightarrow> reachable (processQueue_finish e results s)"
| reach_clearQueue: "reachable s \<Longrightarrow> reachable (clearQueue s)"
| reach_clearSession: "reachable s \<Longrightarrow> reachable (clearSessionAnalysis sid s)"

section \<open>Notions of the specification\<close>

text \<open>
  The classification bands as the specification gives them: above 0.7 a doomscroll,
  below 0.3 healthy, both with confidence \<open>|p - 0.5| * 2\<close>; otherwise unknown with
  confidence 0.5.  The thresholds and the confidence are numbers of the program: 0.7 and
  0.3 are the doubles nearest to these decimals, and the confidence is computed in
  doubles.
\<close>

definition specBand :: "number \<Rightarrow> health \<times> number" where
  "specBand p =
     (if num_gt p (fl 0.7) then (Doomscroll, num_mul (num_abs (num_sub p (Fin 0.5))) (Fin 2))
      else if num_lt p (fl 0.3) then (Healthy, num_mul (num_abs (num_sub p (Fin 0.5))) (Fin 2))
      else (UnknownHealth, Fin 0.5))"

text \<open>
  The order of the queue as the specification gives it: by priority rank (high before
  normal before low), then by timestamp ascending.
\<close>

definition precedes :: "ScheduledAnalysis \<Rightarrow> ScheduledAnalysis \<Rightarrow> bool" where
  "precedes a b =
     (priorityOrder (a_priority a) < priorityOrder (a_priority b)
      \<or> (priorityOrder (a_priority a) = priorityOrder (a_priority b)
          \<and> a_timestamp a \<le> a_timestamp b))"





text \<open>
  Fatigue points in the specification's terms.  The videos of a session in the order of
  their enter interactions; the 0-based order in which a video was first entered, that
  is the number of distinct videos entered before it; the leave interactions that get a
  point (a non-zero dwell time, and a video that is entered somewhere in the session);
  and the point of such an interaction.
\<close>

definition enteredVideos :: "VideoInteraction list \<Rightarrow> string list" where
  "enteredVideos ys = map videoId (filter (\<lambda>i. action i = Enter) ys)"

definition firstEnterOrder :: "string list \<Rightarrow> string \<Rightarrow> nat" where
  "firstEnterOrder ids v = length (remdups (takeWhile (\<lambda>u. u \<noteq> v) ids))"

definition countedLeave :: "VideoInteraction list \<Rightarrow> VideoInteraction \<Rightarrow> bool" where
  "countedLeave ys i =
     (action i = Leave \<and> truthyOpt (dwellOf i) \<and> videoId i \<in> set (enteredVideos ys))"

definition expectedPoint :: "VideoInteraction list \<Rightarrow> VideoInteraction \<Rightarrow> FatiguePoint" where
  "expectedPoint ys i =
     \<lparr>fp_videoOrder = firstEnterOrder (enteredVideos ys) (videoId i),
      fp_dwellTime = num_div (toNumber (dwellOf i)) (Fin 1000),
      fp_timestamp = i_timestamp i\<rparr>"

text \<open>
  Binge bursts in the specification's terms, over the leave interactions with a dwell
  time: the dwell time in seconds, and one record for each maximal run of at least five
  consecutive dwell times below 5 s, found by cutting the sequence into its maximal runs
  from position \<open>i\<close> on.
\<close>

definition dwellSeconds :: "slot \<Rightarrow> number" where
  "dwellSeconds s = num_div (slotDwell s) (Fin 1000)"

function maximalRunBursts :: "nat \<Rightarrow> slot list \<Rightarrow> BingeBurst list" where
  "maximalRunBursts i [] = []"
| "maximalRunBursts i (s # ss) =
     (if num_lt (dwellSeconds s) (Fin 5)
      then
        (let run = takeWhile (\<lambda>t. num_lt (dwellSeconds t) (Fin 5)) (s # ss);
             rest = dropWhile (\<lambda>t. num_lt (dwellSeconds t) (Fin 5)) (s # ss)
         in (if 5 \<le> length run
             then [\<lparr>startIndex = i,
                    endIndex = i + length run - 1,
                    burstLength = length run,
                    averageDwellTime = num_div (sum_by dwellSeconds run) (of_count (length run)),
                    bb_timestamp = slotTimestamp s\<rparr>]
             else [])
            @ maximalRunBursts (i + length run) rest)
      else maximalRunBursts (Suc i) ss)"
  by pat_completeness auto
termination
proof (relation "measure (\<lambda>(i, ss). length ss)")
  show "wf (measure (\<lambda>(i, ss). length ss))" by simp
next
  fix i :: nat and s :: slot and ss x xa
  assume "num_lt (dwellSeconds s) (Fin 5)"
    and "xa = dropWhile (\<lambda>t. num_lt (dwellSeconds t) (Fin 5)) (s # ss)"
  then have "length xa \<le> length ss" by (simp add: length_dropWhile_le)
  then show "((i + length x, xa), (i, s # ss)) \<in> measure (\<lambda>(i, ss). length ss)" by simp
next
  fix i :: nat and s :: slot and ss
  show "((Suc i, ss), (i, s # ss)) \<in> measure (\<lambda>(i, ss). length ss)" by simp
qed

text \<open>The elements of \<^verbatim>\<open>dwellTimes\<close> made from the slots \<open>ss\<close>, numbered from \<open>n\<close>.\<close>

abbreviation itemsFrom :: "nat \<Rightarrow> slot list \<Rightarrow> DwellItem list" where
  "itemsFrom n ss \<equiv>
     map (\<lambda>(index, s). \<lparr>item_index = index, item_dwellTime = num_div (slotDwell s) (Fin 1000),
                          item_timestamp = slotTimestamp s\<rparr>) (enumerate n ss)"

section \<open>Concrete inputs\<close>

text \<open>
  An environment whose local time is UTC, and the helpers of the engine's test suite:
  an interaction of each kind and a one-minute session around a list of interactions.
\<close>

definition utcHour :: "real \<Rightarrow> nat" where
  "utcHour t = nat (\<lfloor>t / 3600000\<rfloor> mod 24)"

definition testEnv :: env where
  "testEnv = \<lparr>now = 1700000000000, localHour = utcHour\<rparr>"

definition enterEvent :: "string \<Rightarrow> real \<Rightarrow> VideoInteraction" where
  "enterEvent v t = \<lparr>videoId = v, i_timestamp = Fin t, action = Enter,
                      metadata = Some \<lparr>dwellTime = None\<rparr>\<rparr>"

definition leaveEvent :: "string \<Rightarrow> real \<Rightarrow> real \<Rightarrow> VideoInteraction" where
  "leaveEvent v t d = \<lparr>videoId = v, i_timestamp = Fin t, action = Leave,
                        metadata = Some \<lparr>dwellTime = Some (Fin d)\<rparr>\<rparr>"

definition enter :: "string \<Rightarrow> real \<Rightarrow> slot" where
  "enter v t = Some (enterEvent v t)"

definition leave :: "string \<Rightarrow> real \<Rightarrow> real \<Rightarrow> slot" where
  "leave v t d = Some (leaveEvent v t d)"

definition sessionOf :: "slot list \<Rightarrow> ViewingSession" where
  "sessionOf xs =
     \<lparr>session_id = ''test-session'', startTime = Fin 0, endTime = Some (Fin 60000),
      isActive = False, videoCount = Fin 0, totalDwellTime = Fin 0, interactions = Arr xs\<rparr>"

definition brokenSession :: ViewingSession where
  "brokenSession =
     \<lparr>session_id = ''test-session'', startTime = Fin 0, endTime = Some (Fin 60000),
      isActive = False, videoCount = Fin 0, totalDwellTime = Fin 0,
      interactions = NotAnArray\<rparr>"


definition constModel :: "number \<Rightarrow> predictor" where
  "constModel p rows = Inr (map (\<lambda>row. p) rows)"

definition classifierWith :: "predictor \<Rightarrow> classifier" where
  "classifierWith m = \<lparr>model = Some m, initialize = Inr (Some m)\<rparr>"

text \<open>An environment with a given clock reading, and an empty session with a given id.\<close>

definition envAt :: "int \<Rightarrow> env" where
  "envAt t = \<lparr>now = t, localHour = utcHour\<rparr>"

definition namedSession :: "string \<Rightarrow> ViewingSession" where
  "namedSession name = (sessionOf [])\<lparr>session_id := name\<rparr>"




text \<open>
  Three sessions scheduled with priorities low, high and normal at increasing times, and
  a queue entry with a given retry count.
\<close>

definition threeScheduled :: scheduler where
  "threeScheduled =
     scheduleAnalysis (envAt 3) (namedSession ''c'') (Metrics (defaultMetrics testEnv)) Normal None
       (scheduleAnalysis (envAt 2) (namedSession ''b'') (Metrics (defaultMetrics testEnv)) High None
         (scheduleAnalysis (envAt 1) (namedSession ''a'') (Metrics (defaultMetrics testEnv)) Low None
           newScheduler))"

definition entryFor :: "string \<Rightarrow> nat \<Rightarrow> ScheduledAnalysis" where
  "entryFor name n =
     \<lparr>sessionId = name, a_session = namedSession name,
      a_metrics = Metrics (defaultMetrics testEnv),
      a_priority = Normal, a_timestamp = 0, retryCount = n\<rparr>"





definition pointsOfMs :: "real list \<Rightarrow> FatiguePoint list" where
  "pointsOfMs ds =
     map (\<lambda>(i, d). \<lparr>fp_videoOrder = i, fp_dwellTime = num_div (Fin d) (Fin 1000),
                      fp_timestamp = Fin 0\<rparr>)
         (enumerate 0 ds)"

text \<open>
  Two videos left in the reverse of the order in which they were entered; five leave
  interactions of 2 s each; and a leave interaction of 8 s.
\<close>

definition twoVideos :: "VideoInteraction list" where
  "twoVideos =
     [enterEvent ''video1'' 1000, enterEvent ''video2'' 2000,
      leaveEvent ''video2'' 9000 7000, leaveEvent ''video1'' 19000 10000]"

definition quickRun :: "slot list" where
  "quickRun =
     [leave ''video1'' 1000 2000, leave ''video2'' 2000 2000, leave ''video3'' 3000 2000,
      leave ''video4'' 4000 2000, leave ''video5'' 5000 2000]"

definition slowLeave :: slot where
  "slowLeave = leave ''video0'' 500 8000"

text \<open>Five leave interactions in a row, of 2 s each but for the third, of 0 ms.\<close>

definition zeroInRun :: "slot list" where
  "zeroInRun =
     [leave ''video1'' 1000 2000, leave ''video2'' 2000 2000, leave ''video3'' 3000 0,
      leave ''video4'' 4000 2000, leave ''video5'' 5000 2000]"

section \<open>Properties of rounding\<close>

text \<open>
  A number \<open>n * 2\<^sup>k\<close> with \<open>|n| < 2\<^sup>5\<^sup>3\<close> and \<open>-1074 \<le> k \<le> 971\<close> is a double, and
  rounding leaves it as it is; so it does every integer below \<open>2\<^sup>5\<^sup>3\<close> in magnitude.
\<close>

lemma nearestEven_of_int [simp]: "nearestEven (of_int m) = m"
  by (simp add: nearestEven_def)

lemma fl_dyadic:
  assumes n: "\<bar>n\<bar> < 2 ^ 53" and k1: "- 1074 \<le> k" and k2: "k \<le> 971"
  shows "fl (of_int n * 2 powr of_int k) = Fin (of_int n * 2 powr of_int k)"
proof (cases "n = 0")
  case True
  then show ?thesis by (simp add: fl_def)
next
  case False
  define x :: real where "x = of_int n * 2 powr of_int k"
  define e where "e = \<lfloor>log 2 \<bar>x\<bar>\<rfloor>"
  define q where "q = max e (- 1022) - 52"
  have x0: "x \<noteq> 0" using False by (simp add: x_def)
  have absx: "\<bar>x\<bar> = of_int \<bar>n\<bar> * 2 powr of_int k" by (simp add: x_def abs_mult)
  have "of_int \<bar>n\<bar> < (2::real) ^ 53"
    using n by (metis of_int_less_iff of_int_numeral of_int_power)
  then have "\<bar>x\<bar> < 2 ^ 53 * 2 powr of_int k" unfolding absx by simp
  also have "\<dots> = 2 powr (of_int (53 + k))" by (simp add: powr_add powr_realpow [symmetric])
  finally have lt: "\<bar>x\<bar> < 2 powr (of_int (53 + k))" .
  have "log 2 \<bar>x\<bar> < of_int (53 + k)"
    using lt x0 by (subst log_less_iff) auto
  then have "e < 53 + k" unfolding e_def by (simp add: floor_less_iff)
  then have qk: "q \<le> k" using k1 by (simp add: q_def)
  have u: "ulp x = 2 powr of_int q" unfolding ulp_def q_def e_def ..
  have "x / ulp x = x / 2 powr of_int q" by (simp only: u)
  also have "\<dots> = of_int n * 2 powr (of_int k - of_int q)"
    unfolding x_def by (simp add: powr_diff)
  also have "of_int k - of_int q = real (nat (k - q))" using qk by simp
  also have "2 powr (real (nat (k - q))) = 2 ^ nat (k - q)" by (simp add: powr_realpow)
  finally have quot: "x / ulp x = of_int (n * 2 ^ nat (k - q))" by simp
  have r: "of_int (nearestEven (x / ulp x)) * ulp x = x"
  proof -
    have "of_int (nearestEven (x / ulp x)) * ulp x = (x / ulp x) * ulp x"
      unfolding quot nearestEven_of_int ..
    also have "\<dots> = x" by (simp add: u)
    finally show ?thesis .
  qed
  have "2 powr (of_int (53 + k)) \<le> (2::real) powr 1024" using k2 by (intro powr_mono) auto
  also have "(2::real) powr 1024 = 2 ^ 1024" by (simp add: powr_realpow [symmetric])
  finally have "\<bar>x\<bar> < 2 ^ 1024" using lt by linarith
  then show ?thesis using x0 r unfolding x_def [symmetric] by (simp add: fl_def Let_def)
qed

lemma fl_of_int: "\<bar>n\<bar> < 2 ^ 53 \<Longrightarrow> fl (of_int n) = Fin (of_int n)"
  using fl_dyadic [of n 0] by simp

lemma fl_numeral [simp]: "numeral w < (2::int) ^ 53 \<Longrightarrow> fl (numeral w) = Fin (numeral w)"
  using fl_of_int [of "numeral w"] by simp

lemma fl_neg_numeral [simp]:
  "numeral w < (2::int) ^ 53 \<Longrightarrow> fl (- numeral w) = Fin (- numeral w)"
  using fl_of_int [of "- numeral w"] by simp

lemma fl_0 [simp]: "fl 0 = Fin 0"
  by (simp add: fl_def)

lemma fl_1 [simp]: "fl 1 = Fin 1"
  using fl_of_int [of 1] by simp

lemma fl_half [simp]: "fl (1 / 2) = Fin (1 / 2)"
  using fl_dyadic [of 1 "- 1"] by (simp add: powr_minus)

lemma fl_neg_half [simp]: "fl (- (1 / 2)) = Fin (- (1 / 2))"
  using fl_dyadic [of "- 1" "- 1"] by (simp add: powr_minus)

text \<open>
  Rounding a real between two powers of two: to the integer multiple of the spacing that
  is less than half a spacing away, and at a tie to the even multiple.
\<close>

lemma nearestEven_near:
  assumes "\<bar>y - of_int m\<bar> < 1 / 2"
  shows "nearestEven y = m"
proof -
  have b: "y - of_int m < 1 / 2" "of_int m - y < 1 / 2" using assms by linarith+
  then have "\<lfloor>y\<rfloor> = m \<or> \<lfloor>y\<rfloor> = m - 1" by linarith
  then show ?thesis
  proof
    assume f: "\<lfloor>y\<rfloor> = m"
    then have "y - of_int \<lfloor>y\<rfloor> < 1 / 2" using b by simp
    then show ?thesis using f by (simp add: nearestEven_def Let_def)
  next
    assume f: "\<lfloor>y\<rfloor> = m - 1"
    then have "1 / 2 < y - of_int \<lfloor>y\<rfloor>" using b by simp
    then show ?thesis using f by (simp add: nearestEven_def Let_def)
  qed
qed

lemma nearestEven_tie:
  assumes "y = of_int m + 1 / 2"
  shows "nearestEven y = (if even m then m else m + 1)"
proof -
  have "\<lfloor>y\<rfloor> = m" using assms by linarith
  then show ?thesis using assms by (simp add: nearestEven_def Let_def)
qed

lemma fl_binade:
  assumes x: "x \<noteq> 0"
    and lo: "2 powr of_int e \<le> \<bar>x\<bar>" and hi: "\<bar>x\<bar> < 2 powr of_int (e + 1)"
    and e: "- 1022 \<le> e"
    and m: "nearestEven (x / 2 powr of_int (e - 52)) = m"
    and r: "\<bar>of_int m * 2 powr of_int (e - 52)\<bar> < (2::real) ^ 1024"
  shows "fl x = Fin (of_int m * 2 powr of_int (e - 52))"
proof -
  have "\<lfloor>log 2 \<bar>x\<bar>\<rfloor> = e"
    using x lo hi by (subst floor_log_eq_powr_iff) (auto simp: add.commute)
  then have "ulp x = 2 powr of_int (e - 52)" using e by (simp add: ulp_def max_def)
  then show ?thesis using x m r by (simp add: fl_def Let_def)
qed

text \<open>
  With the rounded multiple less than half a spacing away the bound on the result
  follows, so that evaluating \<open>fl\<close> at a rational takes its exponent and that multiple.
\<close>

lemma fl_near:
  assumes x: "x \<noteq> 0"
    and lo: "2 powr of_int e \<le> \<bar>x\<bar>" and hi: "\<bar>x\<bar> < 2 powr of_int (e + 1)"
    and e: "- 1022 \<le> e" "e \<le> 1022"
    and m: "\<bar>x / 2 powr of_int (e - 52) - of_int m\<bar> < 1 / 2"
  shows "fl x = Fin (of_int m * 2 powr of_int (e - 52))"
proof (rule fl_binade [OF x lo hi e(1)])
  show "nearestEven (x / 2 powr of_int (e - 52)) = m" by (rule nearestEven_near [OF m])
  define u :: real where "u = 2 powr of_int (e - 52)"
  have u0: "0 < u" by (simp add: u_def)
  have "\<bar>x\<bar> / u < 2 powr of_int (e + 1) / u" using hi u0 by (simp add: divide_strict_right_mono)
  also have "2 powr of_int (e + 1) / u = 2 powr 53" unfolding u_def by (simp add: powr_diff [symmetric])
  also have "(2::real) powr 53 = 2 ^ 53" by (simp add: powr_realpow [symmetric])
  finally have q: "\<bar>x / u\<bar> < 2 ^ 53" using u0 by simp
  have "\<bar>real_of_int m\<bar> \<le> \<bar>x / u\<bar> + \<bar>x / u - of_int m\<bar>" by linarith
  also have "\<dots> < 2 ^ 53 + 1 / 2" using q m unfolding u_def by linarith
  finally have "real_of_int \<bar>m\<bar> < 2 ^ 53 + 1" by simp
  then have "\<bar>m\<bar> < 2 ^ 53 + 1"
    by (metis (mono_tags, opaque_lifting) of_int_less_iff of_int_numeral of_int_power of_int_add of_int_1)
  then have "\<bar>m\<bar> \<le> 2 ^ 53" by simp
  then have mb: "\<bar>real_of_int m\<bar> \<le> 2 ^ 53"
    by (metis (mono_tags, opaque_lifting) of_int_le_iff of_int_numeral of_int_power of_int_abs)
  have "\<bar>of_int m * u\<bar> = \<bar>real_of_int m\<bar> * u" using u0 by (simp add: abs_mult)
  also have "\<dots> \<le> 2 ^ 53 * u" using mb u0 by (simp add: mult_right_mono)
  also have "\<dots> = 2 powr 53 * u" by (simp add: powr_realpow [symmetric])
  also have "\<dots> = 2 powr (53 + of_int (e - 52))" unfolding u_def by (rule powr_add [symmetric])
  also have "53 + real_of_int (e - 52) = of_int (e + 1)" by simp
  also have "2 powr of_int (e + 1) \<le> (2::real) powr 1023" using e by (intro powr_mono) auto
  also have "(2::real) powr 1023 < 2 powr 1024" by (intro powr_less_mono) auto
  also have "(2::real) powr 1024 = 2 ^ 1024" by (simp add: powr_realpow [symmetric])
  finally show "\<bar>of_int m * 2 powr of_int (e - 52)\<bar> < (2::real) ^ 1024" unfolding u_def .
qed

lemma fl_tie:
  assumes x: "x \<noteq> 0"
    and lo: "2 powr of_int e \<le> \<bar>x\<bar>" and hi: "\<bar>x\<bar> < 2 powr of_int (e + 1)"
    and e: "- 1022 \<le> e" "e \<le> 1022"
    and m: "x / 2 powr of_int (e - 52) = of_int m + 1 / 2"
    and r: "\<bar>of_int (if even m then m else m + 1) * 2 powr of_int (e - 52)\<bar> < (2::real) ^ 1024"
  shows "fl x = Fin (of_int (if even m then m else m + 1) * 2 powr of_int (e - 52))"
  by (rule fl_binade [OF x lo hi e(1) nearestEven_tie [OF m] r])

text \<open>The decimal literals of the source that are not doubles.\<close>

lemma fl_3_10: "fl (3 / 10) = Fin (5404319552844595 / 2 ^ 54)"
proof -
  have "fl (3 / 10) = Fin (of_int 5404319552844595 * 2 powr of_int (- 2 - 52))"
    by (rule fl_near) (simp_all add: powr_minus)
  then show ?thesis by (simp add: powr_minus)
qed

lemma fl_3_5: "fl (3 / 5) = Fin (5404319552844595 / 2 ^ 53)"
proof -
  have "fl (3 / 5) = Fin (of_int 5404319552844595 * 2 powr of_int (- 1 - 52))"
    by (rule fl_near) (simp_all add: powr_minus)
  then show ?thesis by (simp add: powr_minus)
qed

lemma fl_7_10: "fl (7 / 10) = Fin (6305039478318694 / 2 ^ 53)"
proof -
  have "fl (7 / 10) = Fin (of_int 6305039478318694 * 2 powr of_int (- 1 - 52))"
    by (rule fl_near) (simp_all add: powr_minus)
  then show ?thesis by (simp add: powr_minus)
qed

lemma fl_4_5: "fl (4 / 5) = Fin (7205759403792794 / 2 ^ 53)"
proof -
  have "fl (4 / 5) = Fin (of_int 7205759403792794 * 2 powr of_int (- 1 - 52))"
    by (rule fl_near) (simp_all add: powr_minus)
  then show ?thesis by (simp add: powr_minus)
qed

lemmas fl_literals = fl_3_10 fl_3_5 fl_7_10 fl_4_5

section \<open>Properties of sorting\<close>

text \<open>
  The insertion sort of the model is the library's stable sort by a key whenever the
  comparator orders by that key; it permutes its input, and its result is ordered when
  the comparator is total and transitive.
\<close>

lemma insert_by_insort_key:
  assumes "\<And>x y. (cmp x y \<le> 0) = (key x \<le> key y)"
  shows "insert_by cmp x xs = insort_key key x xs"
  by (induction xs) (simp_all add: assms)

lemma sort_by_sort_key:
  assumes "\<And>x y. (cmp x y \<le> 0) = (key x \<le> (key y :: 'k :: linorder))"
  shows "sort_by cmp xs = sort_key key xs"
proof -
  have "insert_by cmp = insort_key key"
    by (intro ext) (rule insert_by_insort_key [OF assms])
  then show ?thesis by (simp add: sort_by_def sort_key_def)
qed

lemma set_insert_by: "set (insert_by cmp x xs) = insert x (set xs)"
  by (induction xs) auto

lemma set_sort_by: "set (sort_by cmp xs) = set xs"
  by (induction xs) (simp_all add: sort_by_def set_insert_by)

lemma sorted_insert_by:
  assumes tot: "\<And>x y. cmp x y \<le> 0 \<or> cmp y x \<le> 0"
      and tr: "\<And>x y z. cmp x y \<le> 0 \<Longrightarrow> cmp y z \<le> 0 \<Longrightarrow> cmp x z \<le> 0"
      and "sorted_wrt (\<lambda>a b. cmp a b \<le> 0) xs"
  shows "sorted_wrt (\<lambda>a b. cmp a b \<le> 0) (insert_by cmp x xs)"
  using assms(3)
proof (induction xs)
  case Nil
  then show ?case by simp
next
  case (Cons y ys)
  show ?case
  proof (cases "cmp x y \<le> 0")
    case True
    with Cons.prems show ?thesis by (auto intro: tr)
  next
    case False
    with tot [of x y] have "cmp y x \<le> 0" by simp
    with False Cons show ?thesis by (auto simp: set_insert_by)
  qed
qed

lemma sorted_sort_by:
  assumes "\<And>x y. cmp x y \<le> 0 \<or> cmp y x \<le> 0"
      and "\<And>x y z. cmp x y \<le> 0 \<Longrightarrow> cmp y z \<le> 0 \<Longrightarrow> cmp x z \<le> 0"
  shows "sorted_wrt (\<lambda>a b. cmp a b \<le> 0) (sort_by cmp xs)"
proof (induction xs)
  case Nil
  show ?case by (simp add: sort_by_def)
next
  case (Cons x xs)
  have "sort_by cmp (x # xs) = insert_by cmp x (sort_by cmp xs)" by (simp add: sort_by_def)
  with Cons show ?case by (simp add: sorted_insert_by [OF assms])
qed

lemma mset_insert_by: "mset (insert_by cmp x xs) = add_mset x (mset xs)"
  by (induction xs) simp_all

lemma mset_sort_by: "mset (sort_by cmp xs) = mset xs"
  by (induction xs) (simp_all add: sort_by_def mset_insert_by)

section \<open>Properties of the metrics engine\<close>

lemma elements_Inr_iff: "(\<exists>ys. elements xs = Inr ys) = (None \<notin> set xs)"
  by (induction xs rule: elements.induct) (auto split: sum.splits)

lemma elements_set: "elements xs = Inr ys \<Longrightarrow> set ys = {i. Some i \<in> set xs}"
  by (induction xs arbitrary: ys rule: elements.induct) (auto split: sum.splits)

lemma leavesWithDwell_Inr_iff:
  "(\<exists>zs. leavesWithDwell ys = Inr zs) = (\<forall>i\<in>set ys. action i = Leave \<longrightarrow> metadata i \<noteq> None)"
  by (induction ys) (auto split: sum.splits option.splits)

lemma generateFatiguePoints_Inr_iff:
  "(\<exists>ps. generateFatiguePoints xs = Inr ps) =
   (None \<notin> set xs \<and> (\<forall>i. Some i \<in> set xs \<and> action i = Leave \<longrightarrow> metadata i \<noteq> None))"
proof (cases "elements xs")
  case (Inl err)
  with elements_Inr_iff [of xs] show ?thesis
    by (auto simp: generateFatiguePoints_def)
next
  case (Inr ys)
  then have "None \<notin> set xs" using elements_Inr_iff [of xs] by auto
  moreover have "(\<exists>ps. generateFatiguePoints xs = Inr ps) = (\<exists>zs. leavesWithDwell ys = Inr zs)"
    using Inr by (auto simp: generateFatiguePoints_def Let_def split: sum.splits)
  ultimately show ?thesis
    using elements_set [OF Inr] by (auto simp: leavesWithDwell_Inr_iff)
qed

text \<open>The \<^verbatim>\<open>try\<close> block completes exactly on well-formed arrays.\<close>

lemma try_Inr_iff:
  "(\<exists>m. computeMetrics_try e arg = Inr m) =
   (\<exists>session xs. arg = Sess session \<and> interactions session = Arr xs \<and> None \<notin> set xs
      \<and> (\<forall>i. Some i \<in> set xs \<and> action i = Leave \<longrightarrow> metadata i \<noteq> None))"
proof (cases arg)
  case NoSession
  then show ?thesis by (simp add: computeMetrics_try_def)
next
  case (Sess session)
  show ?thesis
  proof (cases "interactions session")
    case NotAnArray
    with Sess show ?thesis by (simp add: computeMetrics_try_def)
  next
    case (Arr xs)
    have "(\<exists>m. computeMetrics_try e arg = Inr m) = (\<exists>ps. generateFatiguePoints xs = Inr ps)"
    proof (cases "generateFatiguePoints xs")
      case (Inl err)
      with Sess Arr show ?thesis by (simp add: computeMetrics_try_def Let_def)
    next
      case (Inr ps)
      then have "None \<notin> set xs" using generateFatiguePoints_Inr_iff [of xs] by auto
      then obtain ys where "elements xs = Inr ys" using elements_Inr_iff [of xs] by auto
      with Sess Arr Inr show ?thesis
        by (simp add: computeMetrics_try_def Let_def calculateReplaySensitivity_def)
    qed
    with Sess Arr show ?thesis by (simp add: generateFatiguePoints_Inr_iff)
  qed
qed

lemma try_Inr_confidence:
  "computeMetrics_try e arg = Inr m \<Longrightarrow> confidence m = fl 0.8"
  by (auto simp: computeMetrics_try_def Let_def
        split: session_arg.splits interactions_field.splits sum.splits)

lemma empty_metrics:
  assumes "interactions session = Arr []"
  shows "computeMetrics e (Sess session) =
         (defaultMetrics e)
           \<lparr>sessionLength := calculateSessionLength e session,
            circadianDrift :=
              detectCircadianDrift e (startTime session) (calculateSessionLength e session),
            confidence := fl 0.8,
            healthClassification :=
              (if num_lt (calculateSessionLength e session) (Fin 60)
                  \<or> \<not> detectCircadianDrift e (startTime session) (calculateSessionLength e session)
               then Healthy
               else if num_gt (calculateSessionLength e session) (Fin 120) then Doomscroll
               else UnknownHealth)\<rparr>"
  using assms
  by (simp add: computeMetrics_def computeMetrics_try_def defaultMetrics_def Let_def
        generateFatiguePoints_def calculateReplaySensitivity_def sort_by_def
        calculateDopamineSpikeIndex_def calculateAttentionSpan_def calculateScrollMomentum_def
        extractDwellTimes_def calculateRewardVariability_def detectBingeBursts_def dwellItems_def
        closeBurst_def calculateEngagementHalfLife_def calculateCognitiveLoad_def
        calculateHabitStrength_def calculateNoveltyBias_def analyzeSessionHealth_def
        classifySessionArchetype_def countTrue_def num_gt_def)

text \<open>
  C1, as the code has it.  \<^verbatim>\<open>computeMetrics\<close> returns a value for every argument, its
  exceptions being caught.  For a null session and for a session whose interactions are
  not an array the value is the all-zero default object, with classification unknown and
  confidence 0.  For an empty interaction list it is not: the interaction metrics are
  zero, but the session length and the circadian drift are computed from the session's
  times, the confidence is 0.8 and the classification is healthy when the session is
  shorter than an hour or outside the drift window.  In general the default object is
  returned exactly when the \<^verbatim>\<open>try\<close> block throws (no session, no array, a null
  element, or a leave interaction without metadata); every other argument, whatever its
  numbers, gets computed metrics with confidence 0.8.
\<close>

theorem computeMetrics_defaults:
  "computeMetrics e NoSession = defaultMetrics e
   \<and> (interactions session = NotAnArray \<longrightarrow> computeMetrics e (Sess session) = defaultMetrics e)
   \<and> (interactions session' = Arr [] \<longrightarrow>
        computeMetrics e (Sess session') =
         (defaultMetrics e)
           \<lparr>sessionLength := calculateSessionLength e session',
            circadianDrift :=
              detectCircadianDrift e (startTime session') (calculateSessionLength e session'),
            confidence := fl 0.8,
            healthClassification :=
              (if num_lt (calculateSessionLength e session') (Fin 60)
                  \<or> \<not> detectCircadianDrift e (startTime session') (calculateSessionLength e session')
               then Healthy
               else if num_gt (calculateSessionLength e session') (Fin 120) then Doomscroll
               else UnknownHealth)\<rparr>)
   \<and> (if \<exists>s xs. arg = Sess s \<and> interactions s = Arr xs \<and> None \<notin> set xs
            \<and> (\<forall>i. Some i \<in> set xs \<and> action i = Leave \<longrightarrow> metadata i \<noteq> None)
       then confidence (computeMetrics e arg) = fl 0.8
       else computeMetrics e arg = defaultMetrics e)"
proof (intro conjI impI)
  show "computeMetrics e NoSession = defaultMetrics e"
    by (simp add: computeMetrics_def computeMetrics_try_def)
  show "computeMetrics e (Sess session) = defaultMetrics e" if "interactions session = NotAnArray"
    using that by (simp add: computeMetrics_def computeMetrics_try_def)
  show "computeMetrics e (Sess session') =
         (defaultMetrics e)
           \<lparr>sessionLength := calculateSessionLength e session',
            circadianDrift :=
              detectCircadianDrift e (startTime session') (calculateSessionLength e session'),
            confidence := fl 0.8,
            healthClassification :=
              (if num_lt (calculateSessionLength e session') (Fin 60)
                  \<or> \<not> detectCircadianDrift e (startTime session') (calculateSessionLength e session')
               then Healthy
               else if num_gt (calculateSessionLength e session') (Fin 120) then Doomscroll
               else UnknownHealth)\<rparr>" if "interactions session' = Arr []"
    using that by (rule empty_metrics)
  show "if \<exists>s xs. arg = Sess s \<and> interactions s = Arr xs \<and> None \<notin> set xs
            \<and> (\<forall>i. Some i \<in> set xs \<and> action i = Leave \<longrightarrow> metadata i \<noteq> None)
       then confidence (computeMetrics e arg) = fl 0.8
       else computeMetrics e arg = defaultMetrics e"
  proof (cases "computeMetrics_try e arg")
    case (Inl err)
    then have "\<not> (\<exists>m. computeMetrics_try e arg = Inr m)" by simp
    then have "\<not> (\<exists>s xs. arg = Sess s \<and> interactions s = Arr xs \<and> None \<notin> set xs
            \<and> (\<forall>i. Some i \<in> set xs \<and> action i = Leave \<longrightarrow> metadata i \<noteq> None))"
      unfolding try_Inr_iff .
    moreover have "computeMetrics e arg = defaultMetrics e"
      using Inl by (simp add: computeMetrics_def)
    ultimately show ?thesis by (simp only: if_False if_True)
  next
    case (Inr m)
    then have "\<exists>m. computeMetrics_try e arg = Inr m" by blast
    then have "\<exists>s xs. arg = Sess s \<and> interactions s = Arr xs \<and> None \<notin> set xs
            \<and> (\<forall>i. Some i \<in> set xs \<and> action i = Leave \<longrightarrow> metadata i \<noteq> None)"
      unfolding try_Inr_iff .
    moreover have "confidence (computeMetrics e arg) = fl 0.8"
      using Inr try_Inr_confidence [OF Inr] by (simp add: computeMetrics_def)
    ultimately show ?thesis by (simp only: if_False if_True)
  qed
qed

theorem computeMetrics_defaults_witness:
  "interactions brokenSession = NotAnArray
   \<and> computeMetrics testEnv (Sess brokenSession) = defaultMetrics testEnv
   \<and> interactions (sessionOf []) = Arr []
   \<and> healthClassification (computeMetrics testEnv (Sess (sessionOf []))) = Healthy
   \<and> confidence (computeMetrics testEnv
        (Sess (sessionOf [enter ''video1'' 1000, leave ''video1'' 11000 10000]))) = fl 0.8"
proof -
  note t = computeMetrics_defaults [of testEnv brokenSession "sessionOf []"
      "Sess (sessionOf [enter ''video1'' 1000, leave ''video1'' 11000 10000])"]
  have a: "interactions brokenSession = NotAnArray" by (simp add: brokenSession_def)
  have b: "interactions (sessionOf []) = Arr []" by (simp add: sessionOf_def)
  have len: "calculateSessionLength testEnv (sessionOf []) = Fin 1"
    by (simp add: calculateSessionLength_def sessionOf_def truthyOpt_def toNumber_def num_sub_def)
  have c: "\<exists>s xs. Sess (sessionOf [enter ''video1'' 1000, leave ''video1'' 11000 10000]) = Sess s
            \<and> interactions s = Arr xs \<and> None \<notin> set xs
            \<and> (\<forall>i. Some i \<in> set xs \<and> action i = Leave \<longrightarrow> metadata i \<noteq> None)"
    by (auto simp: sessionOf_def enter_def leave_def enterEvent_def leaveEvent_def)
  from t a have 1: "computeMetrics testEnv (Sess brokenSession) = defaultMetrics testEnv" by blast
  from t b have "computeMetrics testEnv (Sess (sessionOf [])) =
         (defaultMetrics testEnv)
           \<lparr>sessionLength := calculateSessionLength testEnv (sessionOf []),
            circadianDrift :=
              detectCircadianDrift testEnv (startTime (sessionOf []))
                (calculateSessionLength testEnv (sessionOf [])),
            confidence := fl 0.8,
            healthClassification :=
              (if num_lt (calculateSessionLength testEnv (sessionOf [])) (Fin 60)
                  \<or> \<not> detectCircadianDrift testEnv (startTime (sessionOf []))
                        (calculateSessionLength testEnv (sessionOf []))
               then Healthy
               else if num_gt (calculateSessionLength testEnv (sessionOf [])) (Fin 120)
               then Doomscroll
               else UnknownHealth)\<rparr>" by blast
  then have 2: "healthClassification (computeMetrics testEnv (Sess (sessionOf []))) = Healthy"
    by (simp add: len)
  from t c have 3: "confidence (computeMetrics testEnv
        (Sess (sessionOf [enter ''video1'' 1000, leave ''video1'' 11000 10000]))) = fl 0.8"
    by (simp only: if_True)
  from a 1 b 2 3 show ?thesis by blast
qed

text \<open>
  C1 as stated fails on the empty interaction list: for a one-minute session with no
  interactions the engine returns confidence 0.8 and the classification healthy, not the
  default object.
\<close>

theorem empty_session_not_default:
  "computeMetrics testEnv (Sess (sessionOf [])) \<noteq> defaultMetrics testEnv
   \<and> healthClassification (computeMetrics testEnv (Sess (sessionOf []))) = Healthy
   \<and> confidence (computeMetrics testEnv (Sess (sessionOf []))) = fl 0.8"
  by (simp add: computeMetrics_def computeMetrics_try_def defaultMetrics_def Let_def sessionOf_def
        generateFatiguePoints_def calculateReplaySensitivity_def sort_by_def
        calculateDopamineSpikeIndex_def calculateAttentionSpan_def calculateSessionLength_def
        analyzeSessionHealth_def countTrue_def num_gt_def num_sub_def truthyOpt_def toNumber_def)

subsection \<open>Sessions without leave interactions\<close>

lemma no_leave_filter:
  assumes "\<forall>i. Some i \<in> set xs \<longrightarrow> action i \<noteq> Leave"
  shows "filter leaveWithDwell xs = []"
  using assms by (auto simp: filter_empty_conv leaveWithDwell_def split: option.splits)

lemma leavesWithDwell_no_leave:
  "\<forall>i\<in>set ys. action i \<noteq> Leave \<Longrightarrow> leavesWithDwell ys = Inr []"
  by (induction ys) auto

lemma generateFatiguePoints_no_leave:
  assumes "\<forall>i. Some i \<in> set xs \<longrightarrow> action i \<noteq> Leave"
  shows "generateFatiguePoints xs = Inr [] \<or> (\<exists>err. generateFatiguePoints xs = Inl err)"
proof (cases "elements xs")
  case (Inl err)
  then show ?thesis by (simp add: generateFatiguePoints_def)
next
  case (Inr ys)
  with assms have "\<forall>i\<in>set ys. action i \<noteq> Leave"
    by (simp add: elements_set)
  then have "leavesWithDwell ys = Inr []" by (rule leavesWithDwell_no_leave)
  with Inr show ?thesis by (simp add: generateFatiguePoints_def sort_by_def)
qed

text \<open>
  C10.  For every session whose interaction list contains no leave interaction,
  \<^verbatim>\<open>computeMetrics\<close> returns a dopamine spike index of 0, an attention span of 0 and
  an empty list of fatigue points.
\<close>

theorem no_leave_metrics:
  assumes "interactions session = Arr xs"
      and "\<forall>i. Some i \<in> set xs \<longrightarrow> action i \<noteq> Leave"
  shows "dopamineSpikeIndex (computeMetrics e (Sess session)) = Fin 0
       \<and> attentionSpan (computeMetrics e (Sess session)) = Fin 0
       \<and> fatiguePoints (computeMetrics e (Sess session)) = []"
proof -
  have nl: "filter leaveWithDwell xs = []" using assms(2) by (rule no_leave_filter)
  have d: "calculateDopamineSpikeIndex xs = Fin 0"
    by (simp add: calculateDopamineSpikeIndex_def nl Let_def)
  have a: "calculateAttentionSpan xs = Fin 0"
    by (simp add: calculateAttentionSpan_def nl Let_def)
  from generateFatiguePoints_no_leave [OF assms(2)]
  show ?thesis
    using assms(1) d a
    by (auto simp: computeMetrics_def computeMetrics_try_def defaultMetrics_def Let_def
          split: sum.splits)
qed

theorem no_leave_metrics_witness:
  "interactions (sessionOf [enter ''video1'' 1000, enter ''video2'' 2000])
     = Arr [enter ''video1'' 1000, enter ''video2'' 2000]
   \<and> dopamineSpikeIndex (computeMetrics testEnv
        (Sess (sessionOf [enter ''video1'' 1000, enter ''video2'' 2000]))) = Fin 0
   \<and> attentionSpan (computeMetrics testEnv
        (Sess (sessionOf [enter ''video1'' 1000, enter ''video2'' 2000]))) = Fin 0
   \<and> fatiguePoints (computeMetrics testEnv
        (Sess (sessionOf [enter ''video1'' 1000, enter ''video2'' 2000]))) = []"
proof -
  have h1: "interactions (sessionOf [enter ''video1'' 1000, enter ''video2'' 2000])
     = Arr [enter ''video1'' 1000, enter ''video2'' 2000]"
    by (simp add: sessionOf_def)
  have h2: "\<forall>i. Some i \<in> set [enter ''video1'' 1000, enter ''video2'' 2000] \<longrightarrow> action i \<noteq> Leave"
    by (auto simp: enter_def enterEvent_def)
  from h1 no_leave_metrics [OF h1 h2, of testEnv] show ?thesis by blast
qed

subsection \<open>Engagement half-life\<close>

declare halfLifeLoop.simps [simp del]

lemma sort_by_byVideoOrder: "sort_by byVideoOrder ps = sort_key fp_videoOrder ps"
  by (rule sort_by_sort_key) (auto simp: byVideoOrder_def)









text \<open>
  Rounding decides the comparison when the two averages are equal as real numbers.  For
  the dwell times 400, 100, 100, 100 and 100000 ms the window at index 3 sums to
  0.30000000000000004 and its average 0.10000000000000002 is above the half
  0.09999999999999999 of the initial average, so the loop goes on and the half-life is
  4; for 1400, 500, 700, 100, 1200 and 2900 ms it is 5 in the same way.
\<close>

lemma half_life_of_rounded_averages:
  "calculateEngagementHalfLife (pointsOfMs [400, 100, 100, 100, 100000]) = 4
   \<and> calculateEngagementHalfLife (pointsOfMs [1400, 500, 700, 100, 1200, 2900]) = 5"
proof -
  define x0 :: real where "x0 = 3602879701896397 / 2 ^ 53"
  define x1 :: real where "x1 = 3602879701896397 / 2 ^ 55"
  define x_init_sum3 :: real where "x_init_sum3 = 5404319552844595 / 2 ^ 53"
  define x_init_avg :: real where "x_init_avg = 7205759403792793 / 2 ^ 55"
  define x_half :: real where "x_half = 7205759403792793 / 2 ^ 56"
  define x_at3_sum2 :: real where "x_at3_sum2 = 3602879701896397 / 2 ^ 54"
  define x_at3_sum3 :: real where "x_at3_sum3 = 1351079888211149 / 2 ^ 52"
  define x_at3_avg :: real where "x_at3_avg = 7205759403792795 / 2 ^ 56"
  define x_at4_sum3 :: real where "x_at4_sum3 = 7050948166601933 / 2 ^ 46"
  define x_at4_avg :: real where "x_at4_avg = 4700632111067955 / 2 ^ 47"
  define y0 :: real where "y0 = 3152519739159347 / 2 ^ 51"
  define y2 :: real where "y2 = 3152519739159347 / 2 ^ 52"
  define y4 :: real where "y4 = 5404319552844595 / 2 ^ 52"
  define y5 :: real where "y5 = 6530219459687219 / 2 ^ 51"
  define y_init_sum2 :: real where "y_init_sum2 = 4278419646001971 / 2 ^ 51"
  define y_init_sum3 :: real where "y_init_sum3 = 1463669878895411 / 2 ^ 49"
  define y_init_avg :: real where "y_init_avg = 7806239354108859 / 2 ^ 53"
  define y_half :: real where "y_half = 7806239354108859 / 2 ^ 54"
  define y_at3_sum3 :: real where "y_at3_sum3 = 5854679515581645 / 2 ^ 52"
  define y_at3_avg :: real where "y_at3_avg = 1951559838527215 / 2 ^ 52"
  define y_at4_sum2 :: real where "y_at4_sum2 = 7205759403792793 / 2 ^ 53"
  define y_at4_avg :: real where "y_at4_avg = 6004799503160661 / 2 ^ 53"
  define y_at5_sum3 :: real where "y_at5_sum3 = 4728779608739021 / 2 ^ 50"
  define y_at5_avg :: real where "y_at5_avg = 6305039478318695 / 2 ^ 52"
  note defs =
    x0_def x1_def x_init_sum3_def x_init_avg_def x_half_def x_at3_sum2_def
    x_at3_sum3_def x_at3_avg_def x_at4_sum3_def x_at4_avg_def y0_def y2_def y4_def
    y5_def y_init_sum2_def y_init_sum3_def y_init_avg_def y_half_def y_at3_sum3_def
    y_at3_avg_def y_at4_sum2_def y_at4_avg_def y_at5_sum3_def y_at5_avg_def
  have f0: "fl (2 / 5) = Fin x0"
  proof -
    have "fl (2 / 5) = Fin (of_int 7205759403792794 * 2 powr of_int (- 2 - 52))"
      by (rule fl_near) (simp_all add: powr_minus defs)
    then show ?thesis by (simp add: powr_minus defs)
  qed
  have f1: "fl (1 / 10) = Fin x1"
  proof -
    have "fl (1 / 10) = Fin (of_int 7205759403792794 * 2 powr of_int (- 4 - 52))"
      by (rule fl_near) (simp_all add: powr_minus defs)
    then show ?thesis by (simp add: powr_minus defs)
  qed
  have f2: "fl x0 = Fin x0"
    using fl_dyadic [of 3602879701896397 "- 53"] by (simp add: powr_minus defs)
  have f3: "fl (x0 + x1) = Fin (1 / 2)"
  proof -
    have "fl (x0 + x1) = Fin (of_int 4503599627370496 * 2 powr of_int (- 1 - 52))"
      by (rule fl_near) (simp_all add: powr_minus defs)
    then show ?thesis by (simp add: powr_minus defs)
  qed
  have f4: "fl (1 / 2 + x1) = Fin x_init_sum3"
  proof -
    have "fl (1 / 2 + x1) = Fin (of_int 5404319552844595 * 2 powr of_int (- 1 - 52))"
      by (rule fl_near) (simp_all add: powr_minus defs)
    then show ?thesis by (simp add: powr_minus defs)
  qed
  have f5: "fl (x_init_sum3 / 3) = Fin x_init_avg"
  proof -
    have "fl (x_init_sum3 / 3) = Fin (of_int 7205759403792793 * 2 powr of_int (- 3 - 52))"
      by (rule fl_near) (simp_all add: powr_minus defs)
    then show ?thesis by (simp add: powr_minus defs)
  qed
  have f6: "fl (x_init_avg / 2) = Fin x_half"
    using fl_dyadic [of 7205759403792793 "- 56"] by (simp add: powr_minus defs)
  have f7: "fl x1 = Fin x1"
    using fl_dyadic [of 3602879701896397 "- 55"] by (simp add: powr_minus defs)
  have f8: "fl (2 * x1) = Fin x_at3_sum2"
    using fl_dyadic [of 3602879701896397 "- 54"] by (simp add: powr_minus defs)
  have f9: "fl (x_at3_sum2 + x1) = Fin x_at3_sum3"
  proof -
    have "fl (x_at3_sum2 + x1)
        = Fin (of_int (if even (5404319552844595::int) then 5404319552844595 else 5404319552844595 + 1) * 2 powr of_int (- 2 - 52))"
      by (rule fl_tie) (simp_all add: powr_minus defs)
    then show ?thesis by (simp add: powr_minus defs)
  qed
  have f10: "fl (x_at3_sum3 / 3) = Fin x_at3_avg"
  proof -
    have "fl (x_at3_sum3 / 3) = Fin (of_int 7205759403792795 * 2 powr of_int (- 4 - 52))"
      by (rule fl_near) (simp_all add: powr_minus defs)
    then show ?thesis by (simp add: powr_minus defs)
  qed
  have f11: "fl (x_at3_sum2 + 100) = Fin x_at4_sum3"
  proof -
    have "fl (x_at3_sum2 + 100) = Fin (of_int 7050948166601933 * 2 powr of_int (6 - 52))"
      by (rule fl_near) (simp_all add: powr_minus defs)
    then show ?thesis by (simp add: powr_minus defs)
  qed
  have f12: "fl (x_at4_sum3 / 3) = Fin x_at4_avg"
  proof -
    have "fl (x_at4_sum3 / 3) = Fin (of_int 4700632111067955 * 2 powr of_int (5 - 52))"
      by (rule fl_near) (simp_all add: powr_minus defs)
    then show ?thesis by (simp add: powr_minus defs)
  qed
  have f13: "fl (7 / 5) = Fin y0"
  proof -
    have "fl (7 / 5) = Fin (of_int 6305039478318694 * 2 powr of_int (0 - 52))"
      by (rule fl_near) (simp_all add: powr_minus defs)
    then show ?thesis by (simp add: powr_minus defs)
  qed
  have f14: "fl (7 / 10) = Fin y2"
  proof -
    have "fl (7 / 10) = Fin (of_int 6305039478318694 * 2 powr of_int (- 1 - 52))"
      by (rule fl_near) (simp_all add: powr_minus defs)
    then show ?thesis by (simp add: powr_minus defs)
  qed
  have f15: "fl (6 / 5) = Fin y4"
  proof -
    have "fl (6 / 5) = Fin (of_int 5404319552844595 * 2 powr of_int (0 - 52))"
      by (rule fl_near) (simp_all add: powr_minus defs)
    then show ?thesis by (simp add: powr_minus defs)
  qed
  have f16: "fl (29 / 10) = Fin y5"
  proof -
    have "fl (29 / 10) = Fin (of_int 6530219459687219 * 2 powr of_int (1 - 52))"
      by (rule fl_near) (simp_all add: powr_minus defs)
    then show ?thesis by (simp add: powr_minus defs)
  qed
  have f17: "fl y0 = Fin y0"
    using fl_dyadic [of 3152519739159347 "- 51"] by (simp add: powr_minus defs)
  have f18: "fl (y0 + 1 / 2) = Fin y_init_sum2"
    using fl_dyadic [of 4278419646001971 "- 51"] by (simp add: powr_minus defs)
  have f19: "fl (y_init_sum2 + y2) = Fin y_init_sum3"
  proof -
    have "fl (y_init_sum2 + y2)
        = Fin (of_int (if even (5854679515581644::int) then 5854679515581644 else 5854679515581644 + 1) * 2 powr of_int (1 - 52))"
      by (rule fl_tie) (simp_all add: powr_minus defs)
    then show ?thesis by (simp add: powr_minus defs)
  qed
  have f20: "fl (y_init_sum3 / 3) = Fin y_init_avg"
  proof -
    have "fl (y_init_sum3 / 3) = Fin (of_int 7806239354108859 * 2 powr of_int (- 1 - 52))"
      by (rule fl_near) (simp_all add: powr_minus defs)
    then show ?thesis by (simp add: powr_minus defs)
  qed
  have f21: "fl (y_init_avg / 2) = Fin y_half"
    using fl_dyadic [of 7806239354108859 "- 54"] by (simp add: powr_minus defs)
  have f22: "fl (1 / 2 + y2) = Fin y4"
    using fl_dyadic [of 5404319552844595 "- 52"] by (simp add: powr_minus defs)
  have f23: "fl (y4 + x1) = Fin y_at3_sum3"
  proof -
    have "fl (y4 + x1) = Fin (of_int 5854679515581645 * 2 powr of_int (0 - 52))"
      by (rule fl_near) (simp_all add: powr_minus defs)
    then show ?thesis by (simp add: powr_minus defs)
  qed
  have f24: "fl (y_at3_sum3 / 3) = Fin y_at3_avg"
    using fl_dyadic [of 1951559838527215 "- 52"] by (simp add: powr_minus defs)
  have f25: "fl y2 = Fin y2"
    using fl_dyadic [of 3152519739159347 "- 52"] by (simp add: powr_minus defs)
  have f26: "fl (y2 + x1) = Fin y_at4_sum2"
  proof -
    have "fl (y2 + x1) = Fin (of_int 7205759403792793 * 2 powr of_int (- 1 - 52))"
      by (rule fl_near) (simp_all add: powr_minus defs)
    then show ?thesis by (simp add: powr_minus defs)
  qed
  have f27: "fl (y_at4_sum2 + y4) = Fin 2"
  proof -
    have "fl (y_at4_sum2 + y4)
        = Fin (of_int (if even (9007199254740991::int) then 9007199254740991 else 9007199254740991 + 1) * 2 powr of_int (0 - 52))"
      by (rule fl_tie) (simp_all add: powr_minus defs)
    then show ?thesis by (simp add: powr_minus defs)
  qed
  have f28: "fl (2 / 3) = Fin y_at4_avg"
  proof -
    have "fl (2 / 3) = Fin (of_int 6004799503160661 * 2 powr of_int (- 1 - 52))"
      by (rule fl_near) (simp_all add: powr_minus defs)
    then show ?thesis by (simp add: powr_minus defs)
  qed
  have f29: "fl (x1 + y4) = Fin y_at3_sum3"
  proof -
    have "fl (x1 + y4) = Fin (of_int 5854679515581645 * 2 powr of_int (0 - 52))"
      by (rule fl_near) (simp_all add: powr_minus defs)
    then show ?thesis by (simp add: powr_minus defs)
  qed
  have f30: "fl (y_at3_sum3 + y5) = Fin y_at5_sum3"
  proof -
    have "fl (y_at3_sum3 + y5) = Fin (of_int 4728779608739021 * 2 powr of_int (2 - 52))"
      by (rule fl_near) (simp_all add: powr_minus defs)
    then show ?thesis by (simp add: powr_minus defs)
  qed
  have f31: "fl (y_at5_sum3 / 3) = Fin y_at5_avg"
  proof -
    have "fl (y_at5_sum3 / 3) = Fin (of_int 6305039478318695 * 2 powr of_int (0 - 52))"
      by (rule fl_near) (simp_all add: powr_minus defs)
    then show ?thesis by (simp add: powr_minus defs)
  qed
  have cmp:
    "\<not> x_at3_avg \<le> x_half" "\<not> x_at4_avg \<le> x_half" "\<not> y_at3_avg
    \<le> y_half" "\<not> y_at4_avg \<le> y_half" "\<not> y_at5_avg \<le> y_half"
    by (simp_all add: defs)
  show ?thesis
    by (simp add: calculateEngagementHalfLife_def pointsOfMs_def sort_by_def byVideoOrder_def
          slice_def sum_by_def currentAttention_def of_count_def Let_def halfLifeLoop.simps
          f0 f1 f2 f3 f4 f5 f6 f7 f8 f9 f10 f11 f12 f13 f14 f15 f16 f17 f18 f19 f20 f21
          f22 f23 f24 f25 f26 f27 f28 f29 f30 f31 cmp)
qed

subsection \<open>Fatigue points\<close>

lemma elements_map_Some: "elements (map Some ys) = Inr ys"
  by (induction ys) simp_all

lemma leavesWithDwell_filter:
  "\<forall>i\<in>set ys. action i = Leave \<longrightarrow> metadata i \<noteq> None \<Longrightarrow>
   leavesWithDwell ys = Inr (filter (\<lambda>i. action i = Leave \<and> truthyOpt (dwellOf i)) ys)"
  by (induction ys) (auto simp: dwellOf_def split: option.splits)

lemma trackVideoOrder_lookup:
  "trackVideoOrder seq n is v =
     (case seq v of
        Some k \<Rightarrow> Some k
      | None \<Rightarrow>
          if v \<in> videoId ` set is
          then Some (n + card (set (takeWhile (\<lambda>u. u \<noteq> v) (map videoId is)) - dom seq))
          else None)"
proof (induction "is" arbitrary: seq n)
  case Nil
  then show ?case by (simp split: option.splits)
next
  case (Cons i rest)
  let ?u = "videoId i"
  let ?T = "set (takeWhile (\<lambda>u. u \<noteq> v) (map videoId rest))"
  show ?case
  proof (cases "seq ?u")
    case None
    then have step: "trackVideoOrder seq n (i # rest) v =
        trackVideoOrder (seq(?u \<mapsto> n)) (Suc n) rest v" by simp
    show ?thesis
    proof (cases "v = ?u")
      case True
      with None show ?thesis unfolding step Cons.IH by simp
    next
      case False
      show ?thesis
      proof (cases "seq v")
        case (Some k)
        with False show ?thesis unfolding step Cons.IH by simp
      next
        case nv: None
        have "insert ?u ?T - dom seq = insert ?u (?T - dom (seq(?u \<mapsto> n)))"
          using None by auto
        moreover have "?u \<notin> ?T - dom (seq(?u \<mapsto> n))" by simp
        ultimately have "card (insert ?u ?T - dom seq) = Suc (card (?T - dom (seq(?u \<mapsto> n))))"
          by simp
        with False nv show ?thesis unfolding step Cons.IH by auto
      qed
    qed
  next
    case (Some k0)
    then have step: "trackVideoOrder seq n (i # rest) v = trackVideoOrder seq n rest v" by simp
    show ?thesis
    proof (cases "v = ?u")
      case True
      with Some show ?thesis unfolding step Cons.IH by simp
    next
      case False
      have "insert ?u ?T - dom seq = ?T - dom seq" using Some by auto
      with False show ?thesis unfolding step Cons.IH by (auto split: option.splits)
    qed
  qed
qed

lemma videoSequence_order:
  "trackVideoOrder Map.empty 0 (filter (\<lambda>i. action i = Enter) ys) v =
     (if v \<in> set (enteredVideos ys) then Some (firstEnterOrder (enteredVideos ys) v) else None)"
  by (simp add: trackVideoOrder_lookup enteredVideos_def firstEnterOrder_def card_set)

lemma pushFatiguePoints_map:
  assumes "\<And>v. seq v = (if v \<in> set (enteredVideos ys) then Some (firstEnterOrder (enteredVideos ys) v) else None)"
  shows "pushFatiguePoints seq ls =
         map (expectedPoint ys) (filter (\<lambda>i. videoId i \<in> set (enteredVideos ys)) ls)"
  by (induction ls) (simp_all add: assms expectedPoint_def)

lemma generateFatiguePoints_spec:
  assumes "\<forall>i\<in>set ys. action i = Leave \<longrightarrow> metadata i \<noteq> None"
  shows "generateFatiguePoints (map Some ys) =
         Inr (sort_key fp_videoOrder (map (expectedPoint ys) (filter (countedLeave ys) ys)))"
proof -
  have "filter (\<lambda>i. videoId i \<in> set (enteredVideos ys))
          (filter (\<lambda>i. action i = Leave \<and> truthyOpt (dwellOf i)) ys) = filter (countedLeave ys) ys"
    by (auto simp: countedLeave_def intro: filter_cong)
  then show ?thesis
    by (simp add: generateFatiguePoints_def elements_map_Some leavesWithDwell_filter [OF assms]
          Let_def pushFatiguePoints_map [OF videoSequence_order] sort_by_byVideoOrder)
qed

text \<open>
  C6, as the code has it.  For a session whose interactions are all present and whose
  leave interactions all have metadata, the fatigue points are one point for each leave
  interaction with a non-zero dwell time whose video is entered somewhere in the session
  (a leave interaction of a video that is never entered gets no point), each with the
  0-based order in which its video was first entered, its dwell time in seconds and its
  timestamp; the list is sorted ascending by that order, leave interactions of the same
  video staying in their order.
\<close>

theorem fatigue_points_per_counted_leave:
  assumes "interactions session = Arr (map Some ys)"
      and "\<forall>i\<in>set ys. action i = Leave \<longrightarrow> metadata i \<noteq> None"
  shows "fatiguePoints (computeMetrics e (Sess session)) =
           sort_key fp_videoOrder (map (expectedPoint ys) (filter (countedLeave ys) ys))
       \<and> mset (fatiguePoints (computeMetrics e (Sess session))) =
           mset (map (expectedPoint ys) (filter (countedLeave ys) ys))
       \<and> length (fatiguePoints (computeMetrics e (Sess session))) =
           length (filter (countedLeave ys) ys)
       \<and> sorted (map fp_videoOrder (fatiguePoints (computeMetrics e (Sess session))))"
proof -
  have "fatiguePoints (computeMetrics e (Sess session)) =
           sort_key fp_videoOrder (map (expectedPoint ys) (filter (countedLeave ys) ys))"
    using assms(1)
    by (simp add: computeMetrics_def computeMetrics_try_def generateFatiguePoints_spec [OF assms(2)]
          calculateReplaySensitivity_def elements_map_Some Let_def)
  then show ?thesis by simp
qed

theorem fatigue_points_per_counted_leave_witness:
  "interactions (sessionOf (map Some twoVideos)) = Arr (map Some twoVideos)
   \<and> fatiguePoints (computeMetrics testEnv (Sess (sessionOf (map Some twoVideos)))) =
       [\<lparr>fp_videoOrder = 0, fp_dwellTime = Fin 10, fp_timestamp = Fin 19000\<rparr>,
        \<lparr>fp_videoOrder = 1, fp_dwellTime = Fin 7, fp_timestamp = Fin 9000\<rparr>]"
proof -
  have h1: "interactions (sessionOf (map Some twoVideos)) = Arr (map Some twoVideos)"
    by (simp add: sessionOf_def)
  have h2: "\<forall>i\<in>set twoVideos. action i = Leave \<longrightarrow> metadata i \<noteq> None"
    by (simp add: twoVideos_def enterEvent_def leaveEvent_def)
  have ids: "enteredVideos twoVideos = [''video1'', ''video2'']"
    by (simp add: enteredVideos_def twoVideos_def enterEvent_def leaveEvent_def)
  have cl: "filter (countedLeave twoVideos) twoVideos =
      [leaveEvent ''video2'' 9000 7000, leaveEvent ''video1'' 19000 10000]"
    unfolding countedLeave_def ids
    by (simp add: twoVideos_def enterEvent_def leaveEvent_def truthyOpt_def dwellOf_def)
  have pts: "map (expectedPoint twoVideos) (filter (countedLeave twoVideos) twoVideos) =
      [\<lparr>fp_videoOrder = 1, fp_dwellTime = Fin 7, fp_timestamp = Fin 9000\<rparr>,
       \<lparr>fp_videoOrder = 0, fp_dwellTime = Fin 10, fp_timestamp = Fin 19000\<rparr>]"
    unfolding cl expectedPoint_def ids
    by (simp add: leaveEvent_def firstEnterOrder_def dwellOf_def toNumber_def)
  have srt: "sort_key fp_videoOrder
      [\<lparr>fp_videoOrder = 1, fp_dwellTime = Fin 7, fp_timestamp = Fin 9000\<rparr>,
       \<lparr>fp_videoOrder = 0, fp_dwellTime = Fin 10, fp_timestamp = Fin 19000\<rparr>] =
      [\<lparr>fp_videoOrder = 0, fp_dwellTime = Fin 10, fp_timestamp = Fin 19000\<rparr>,
       \<lparr>fp_videoOrder = 1, fp_dwellTime = Fin 7, fp_timestamp = Fin 9000\<rparr>]"
    by (simp add: sort_key_def)
  from fatigue_points_per_counted_leave [OF h1 h2, of testEnv]
  have "fatiguePoints (computeMetrics testEnv (Sess (sessionOf (map Some twoVideos)))) =
      sort_key fp_videoOrder (map (expectedPoint twoVideos) (filter (countedLeave twoVideos) twoVideos))"
    by blast
  then have "fatiguePoints (computeMetrics testEnv (Sess (sessionOf (map Some twoVideos)))) =
       [\<lparr>fp_videoOrder = 0, fp_dwellTime = Fin 10, fp_timestamp = Fin 19000\<rparr>,
        \<lparr>fp_videoOrder = 1, fp_dwellTime = Fin 7, fp_timestamp = Fin 9000\<rparr>]"
    by (simp only: pts srt)
  with h1 show ?thesis by blast
qed

text \<open>
  C6 as stated fails: a leave interaction with a recorded dwell time whose video has no
  enter interaction gets no fatigue point.
\<close>

theorem leave_without_enter_has_no_point:
  "fatiguePoints (computeMetrics testEnv (Sess (sessionOf [leave ''video1'' 2000 5000]))) = []"
  by (simp add: computeMetrics_def computeMetrics_try_def sessionOf_def leave_def leaveEvent_def
        generateFatiguePoints_def calculateReplaySensitivity_def sort_by_def truthyOpt_def Let_def
        defaultMetrics_def)

subsection \<open>Binge bursts\<close>

lemma closeBurst_None: "closeBurst bursts None dts tss = bursts"
  by (simp add: closeBurst_def)

lemma burstLoop_skip:
  "\<forall>x\<in>set pre. \<not> num_lt (item_dwellTime x) (Fin 5) \<Longrightarrow>
   burstLoop i (pre @ rest) bursts None [] [] = burstLoop (i + length pre) rest bursts None [] []"
  by (induction pre arbitrary: i) (simp_all add: closeBurst_None)

lemma burstLoop_continue:
  "\<forall>x\<in>set run. num_lt (item_dwellTime x) (Fin 5) \<Longrightarrow>
   burstLoop i (run @ rest) bursts (Some st) dts tss =
   burstLoop (i + length run) rest bursts (Some st)
     (dts @ map item_dwellTime run) (tss @ map item_timestamp run)"
  by (induction run arbitrary: i dts tss) simp_all

lemma burstLoop_start:
  assumes "\<forall>x\<in>set run. num_lt (item_dwellTime x) (Fin 5)" and "run \<noteq> []"
  shows "burstLoop i (run @ rest) bursts None [] [] =
         burstLoop (i + length run) rest bursts (Some i)
           (map item_dwellTime run) (map item_timestamp run)"
proof (cases run)
  case Nil
  with assms(2) show ?thesis by simp
next
  case (Cons x run')
  with assms(1) have "num_lt (item_dwellTime x) (Fin 5)"
    and r: "\<forall>y\<in>set run'. num_lt (item_dwellTime y) (Fin 5)" by simp_all
  then show ?thesis
    using burstLoop_continue [OF r, of "Suc i" rest bursts i "[item_dwellTime x]" "[item_timestamp x]"]
    by (simp add: Cons)
qed

lemma burstLoop_end:
  assumes "\<forall>x\<in>set post. \<not> num_lt (item_dwellTime x) (Fin 5)"
  shows "burstLoop i post bursts start dts tss = closeBurst bursts start dts tss"
proof (cases post)
  case Nil
  then show ?thesis by simp
next
  case (Cons y ys)
  with assms have "\<not> num_lt (item_dwellTime y) (Fin 5)"
    and r: "\<forall>x\<in>set ys. \<not> num_lt (item_dwellTime x) (Fin 5)" by simp_all
  then show ?thesis
    using burstLoop_skip [OF r, of "Suc i" "[]" "closeBurst bursts start dts tss"]
    by (simp add: Cons closeBurst_None)
qed

lemma burstLoop_single_run:
  assumes "\<forall>x\<in>set pre. \<not> num_lt (item_dwellTime x) (Fin 5)"
      and "\<forall>x\<in>set run. num_lt (item_dwellTime x) (Fin 5)"
      and "run \<noteq> []"
      and "\<forall>x\<in>set post. \<not> num_lt (item_dwellTime x) (Fin 5)"
  shows "burstLoop 0 (pre @ run @ post) [] None [] [] =
         closeBurst [] (Some (length pre)) (map item_dwellTime run) (map item_timestamp run)"
  by (simp add: burstLoop_skip [OF assms(1)] burstLoop_start [OF assms(2,3)]
        burstLoop_end [OF assms(4)])

lemma items_dwell:
  "map item_dwellTime
     (map (\<lambda>(index, s). \<lparr>item_index = index, item_dwellTime = num_div (slotDwell s) (Fin 1000),
                          item_timestamp = slotTimestamp s\<rparr>) (enumerate n ss))
   = map dwellSeconds ss"
  by (induction ss arbitrary: n) (simp_all add: dwellSeconds_def)

lemma items_timestamp:
  "map item_timestamp
     (map (\<lambda>(index, s). \<lparr>item_index = index, item_dwellTime = num_div (slotDwell s) (Fin 1000),
                          item_timestamp = slotTimestamp s\<rparr>) (enumerate n ss))
   = map slotTimestamp ss"
  by (induction ss arbitrary: n) simp_all

lemma items_all:
  "(\<forall>x\<in>set (map (\<lambda>(index, s). \<lparr>item_index = index,
                        item_dwellTime = num_div (slotDwell s) (Fin 1000),
                        item_timestamp = slotTimestamp s\<rparr>) (enumerate n ss)).
      P (item_dwellTime x))
   = (\<forall>s\<in>set ss. P (dwellSeconds s))"
  by (induction ss arbitrary: n) (simp_all add: dwellSeconds_def)

lemma sum_by_map: "sum_by f (map g xs) = sum_by (\<lambda>x. f (g x)) xs"
  by (simp add: sum_by_def foldl_map)

lemma single_run_burst:
  assumes "filter leaveWithDwell xs = pre @ run @ post"
      and "\<forall>s\<in>set pre. \<not> num_lt (dwellSeconds s) (Fin 5)"
      and "\<forall>s\<in>set run. num_lt (dwellSeconds s) (Fin 5)"
      and "run \<noteq> []"
      and "\<forall>s\<in>set post. \<not> num_lt (dwellSeconds s) (Fin 5)"
  shows "detectBingeBursts xs =
         (if 5 \<le> length run
          then [\<lparr>startIndex = length pre,
                 endIndex = length pre + length run - 1,
                 burstLength = length run,
                 averageDwellTime = num_div (sum_by dwellSeconds run) (of_count (length run)),
                 bb_timestamp = slotTimestamp (hd run)\<rparr>]
          else [])"
proof -
  let ?mk = "\<lambda>(index, s). \<lparr>item_index = index, item_dwellTime = num_div (slotDwell s) (Fin 1000),
                          item_timestamp = slotTimestamp s\<rparr>"
  let ?items = "\<lambda>n ss. map ?mk (enumerate n ss)"
  have split: "dwellItems xs =
      ?items 0 pre @ ?items (length pre) run @ ?items (length pre + length run) post"
    by (simp add: dwellItems_def assms(1) enumerate_append_eq)
  have "detectBingeBursts xs =
      closeBurst [] (Some (length (?items 0 pre)))
        (map item_dwellTime (?items (length pre) run))
        (map item_timestamp (?items (length pre) run))"
    unfolding detectBingeBursts_def split
  proof (rule burstLoop_single_run)
    show "\<forall>x\<in>set (?items 0 pre). \<not> num_lt (item_dwellTime x) (Fin 5)"
      using assms(2) items_all [where P = "\<lambda>d. \<not> num_lt d (Fin 5)" and n = 0 and ss = pre] by blast
    show "\<forall>x\<in>set (?items (length pre) run). num_lt (item_dwellTime x) (Fin 5)"
      using assms(3) items_all [where P = "\<lambda>d. num_lt d (Fin 5)" and n = "length pre" and ss = run] by blast
    show "?items (length pre) run \<noteq> []" using assms(4) by (cases run) simp_all
    show "\<forall>x\<in>set (?items (length pre + length run) post). \<not> num_lt (item_dwellTime x) (Fin 5)"
      using assms(5) items_all [where P = "\<lambda>d. \<not> num_lt d (Fin 5)" and n = "length pre + length run"
        and ss = post]
      by blast
  qed
  also have "\<dots> = closeBurst [] (Some (length pre)) (map dwellSeconds run) (map slotTimestamp run)"
    by (simp only: items_dwell items_timestamp length_map length_enumerate)
  also have "\<dots> = (if 5 \<le> length run
          then [\<lparr>startIndex = length pre,
                 endIndex = length pre + length run - 1,
                 burstLength = length run,
                 averageDwellTime = num_div (sum_by dwellSeconds run) (of_count (length run)),
                 bb_timestamp = slotTimestamp (hd run)\<rparr>]
          else [])"
  proof -
    have avg: "sum_by (\<lambda>time. time) (map dwellSeconds run) = sum_by dwellSeconds run"
      by (simp add: sum_by_map)
    have first: "(case map slotTimestamp run of [] \<Rightarrow> NaN | t # ts \<Rightarrow> t) = slotTimestamp (hd run)"
      using assms(4) by (cases run) simp_all
    show ?thesis
      by (simp add: closeBurst_def burstRecord_def avg first)
  qed
  finally show ?thesis .
qed

declare maximalRunBursts.simps [simp del]

lemma closeBurst_append:
  "closeBurst bursts start dts tss = bursts @ closeBurst [] start dts tss"
  by (simp add: closeBurst_def split: option.splits)

lemma burstLoop_accumulator:
  "burstLoop i items bursts start dts tss = bursts @ burstLoop i items [] start dts tss"
proof (induction items arbitrary: i bursts start dts tss)
  case Nil
  show ?case by (simp add: closeBurst_append [of bursts])
next
  case (Cons x items)
  show ?case
  proof (cases "num_lt (item_dwellTime x) (Fin 5)")
    case True
    show ?thesis
    proof (cases start)
      case None
      have "burstLoop i (x # items) bursts start dts tss =
            burstLoop (Suc i) items bursts (Some i) [item_dwellTime x] [item_timestamp x]"
        using True None by simp
      also have "\<dots> = bursts @ burstLoop (Suc i) items [] (Some i) [item_dwellTime x] [item_timestamp x]"
        by (rule Cons.IH)
      also have "burstLoop (Suc i) items [] (Some i) [item_dwellTime x] [item_timestamp x] =
            burstLoop i (x # items) [] start dts tss"
        using True None by simp
      finally show ?thesis .
    next
      case (Some st)
      have "burstLoop i (x # items) bursts start dts tss =
            burstLoop (Suc i) items bursts start (dts @ [item_dwellTime x]) (tss @ [item_timestamp x])"
        using True Some by simp
      also have "\<dots> = bursts @ burstLoop (Suc i) items [] start (dts @ [item_dwellTime x])
            (tss @ [item_timestamp x])"
        by (rule Cons.IH)
      also have "burstLoop (Suc i) items [] start (dts @ [item_dwellTime x]) (tss @ [item_timestamp x]) =
            burstLoop i (x # items) [] start dts tss"
        using True Some by simp
      finally show ?thesis .
    qed
  next
    case False
    have "burstLoop i (x # items) bursts start dts tss =
          burstLoop (Suc i) items (closeBurst bursts start dts tss) None [] []"
      using False by simp
    also have "\<dots> = closeBurst bursts start dts tss @ burstLoop (Suc i) items [] None [] []"
      by (rule Cons.IH)
    also have "\<dots> = bursts @ closeBurst [] start dts tss @ burstLoop (Suc i) items [] None [] []"
      by (simp add: closeBurst_append [of bursts])
    also have "closeBurst [] start dts tss @ burstLoop (Suc i) items [] None [] [] =
          burstLoop (Suc i) items (closeBurst [] start dts tss) None [] []"
      by (rule Cons.IH [symmetric])
    also have "burstLoop (Suc i) items (closeBurst [] start dts tss) None [] [] =
          burstLoop i (x # items) [] start dts tss"
      using False by simp
    finally show ?thesis .
  qed
qed

lemma itemsFrom_Cons:
  "itemsFrom n (s # ss) =
     \<lparr>item_index = n, item_dwellTime = dwellSeconds s, item_timestamp = slotTimestamp s\<rparr>
       # itemsFrom (Suc n) ss"
  by (simp add: dwellSeconds_def)

lemma burstLoop_maximal_runs:
  "burstLoop i (itemsFrom i ss) [] None [] [] = maximalRunBursts i ss"
proof (induction i ss rule: maximalRunBursts.induct)
  case (1 i)
  show ?case by (simp add: maximalRunBursts.simps closeBurst_None)
next
  case (2 i s ss)
  let ?short = "\<lambda>t. num_lt (dwellSeconds t) (Fin 5)"
  show ?case
  proof (cases "?short s")
    case False
    have "burstLoop i (itemsFrom i (s # ss)) [] None [] [] =
          burstLoop (Suc i) (itemsFrom (Suc i) ss) [] None [] []"
      unfolding itemsFrom_Cons using False by (simp add: closeBurst_None)
    also have "\<dots> = maximalRunBursts (Suc i) ss"
      using False by (rule "2.IH"(2))
    finally show ?thesis using False by (simp add: maximalRunBursts.simps)
  next
    case True
    define run where "run = takeWhile ?short (s # ss)"
    define rest where "rest = dropWhile ?short (s # ss)"
    have sp: "s # ss = run @ rest" by (simp add: run_def rest_def)
    have rne: "run \<noteq> []" using True by (simp add: run_def)
    have hdr: "hd run = s" using True by (simp add: run_def)
    have rshort: "\<forall>t\<in>set run. ?short t"
      unfolding run_def by (meson set_takeWhileD)
    have ih: "burstLoop (i + length run) (itemsFrom (i + length run) rest) [] None [] [] =
          maximalRunBursts (i + length run) rest"
      using "2.IH"(1) [OF True run_def rest_def] .
    let ?rec = "closeBurst [] (Some i) (map dwellSeconds run) (map slotTimestamp run)"
    have items_split: "itemsFrom i (s # ss) = itemsFrom i run @ itemsFrom (i + length run) rest"
      unfolding sp by (simp add: enumerate_append_eq)
    have ishort: "\<forall>x\<in>set (itemsFrom i run). num_lt (item_dwellTime x) (Fin 5)"
      using rshort items_all [where P = "\<lambda>d. num_lt d (Fin 5)" and n = i and ss = run] by blast
    have ine: "itemsFrom i run \<noteq> []" using rne by (cases run) simp_all
    have "burstLoop i (itemsFrom i (s # ss)) [] None [] [] =
          burstLoop (i + length run) (itemsFrom (i + length run) rest) [] (Some i)
            (map dwellSeconds run) (map slotTimestamp run)"
      unfolding items_split
      using burstLoop_start [OF ishort ine, of i "itemsFrom (i + length run) rest" "[]"]
      by (simp only: items_dwell items_timestamp length_map length_enumerate)
    also have "\<dots> = ?rec @ maximalRunBursts (i + length run) rest"
    proof (cases rest)
      case Nil
      then show ?thesis by (simp add: maximalRunBursts.simps)
    next
      case (Cons y rest')
      have "\<not> ?short (hd rest)"
        unfolding rest_def using Cons rest_def by (metis hd_dropWhile list.distinct(1))
      with Cons have ylong: "\<not> ?short y" by simp
      have "burstLoop (i + length run) (itemsFrom (i + length run) rest) [] (Some i)
              (map dwellSeconds run) (map slotTimestamp run) =
            burstLoop (Suc (i + length run)) (itemsFrom (Suc (i + length run)) rest') ?rec None [] []"
        unfolding Cons itemsFrom_Cons using ylong by simp
      also have "\<dots> = ?rec @ burstLoop (Suc (i + length run)) (itemsFrom (Suc (i + length run)) rest')
              [] None [] []"
        by (rule burstLoop_accumulator)
      also have "burstLoop (Suc (i + length run)) (itemsFrom (Suc (i + length run)) rest') [] None [] []
            = burstLoop (i + length run) (itemsFrom (i + length run) rest) [] None [] []"
        unfolding Cons itemsFrom_Cons using ylong by (simp add: closeBurst_None)
      finally show ?thesis by (simp only: ih)
    qed
    also have "?rec = (if 5 \<le> length run
             then [\<lparr>startIndex = i,
                    endIndex = i + length run - 1,
                    burstLength = length run,
                    averageDwellTime = num_div (sum_by dwellSeconds run) (of_count (length run)),
                    bb_timestamp = slotTimestamp s\<rparr>]
             else [])"
    proof -
      have avg: "sum_by (\<lambda>time. time) (map dwellSeconds run) = sum_by dwellSeconds run"
        by (simp add: sum_by_map)
      have first: "(case map slotTimestamp run of [] \<Rightarrow> NaN | t # ts \<Rightarrow> t) = slotTimestamp s"
        using rne hdr by (cases run) simp_all
      show ?thesis by (simp add: closeBurst_def burstRecord_def avg first)
    qed
    finally show ?thesis
      using True by (simp add: maximalRunBursts.simps(2) [of i s ss] Let_def run_def rest_def)
  qed
qed

lemma detect_maximal_runs:
  "detectBingeBursts xs = maximalRunBursts 0 (filter leaveWithDwell xs)"
  using burstLoop_maximal_runs [of 0 "filter leaveWithDwell xs"]
  by (simp add: detectBingeBursts_def dwellItems_def)

text \<open>
  C7 fails on the code when a dwell time is 0.  The filter
  \<^verbatim>\<open>i.action === 'leave' && i.metadata?.dwellTime\<close> drops a leave interaction whose
  dwell time is 0 ms before the runs are formed.  Five leave interactions in a row with
  dwell times below 5 s, the third of 0 ms, are a run of five, but four of them reach the
  loop and no burst is found.
\<close>

theorem zero_dwell_breaks_run:
  "map dwellSeconds zeroInRun = [Fin 2, Fin 2, Fin 0, Fin 2, Fin 2]
   \<and> detectBingeBursts zeroInRun = []"
  by (simp add: zeroInRun_def dwellSeconds_def slotDwell_def leave_def leaveEvent_def dwellOf_def
        toNumber_def detectBingeBursts_def dwellItems_def leaveWithDwell_def truthyOpt_def
        closeBurst_def slotTimestamp_def)

text \<open>
  C7, as the code has it.  Over the leave interactions with a non-zero dwell time, in
  their order, binge-burst detection returns exactly one record for each maximal run of
  at least five consecutive dwell times below 5 s.  In particular, when these dwell times
  contain a single run of \<open>N\<close> values below 5 s, between values that are not below 5 s,
  the output is one burst of length \<open>N\<close> if \<open>N \<ge> 5\<close> and no burst otherwise; the burst
  starts at the run's first index and carries the run's average dwell time and the
  timestamp of its first element.
\<close>

theorem binge_bursts_maximal_runs:
  "detectBingeBursts xs = maximalRunBursts 0 (filter leaveWithDwell xs)
   \<and> (filter leaveWithDwell ys = pre @ run @ post
        \<and> (\<forall>s\<in>set pre. \<not> num_lt (dwellSeconds s) (Fin 5))
        \<and> (\<forall>s\<in>set run. num_lt (dwellSeconds s) (Fin 5))
        \<and> run \<noteq> []
        \<and> (\<forall>s\<in>set post. \<not> num_lt (dwellSeconds s) (Fin 5))
      \<longrightarrow> detectBingeBursts ys =
           (if 5 \<le> length run
            then [\<lparr>startIndex = length pre,
                   endIndex = length pre + length run - 1,
                   burstLength = length run,
                   averageDwellTime = num_div (sum_by dwellSeconds run) (of_count (length run)),
                   bb_timestamp = slotTimestamp (hd run)\<rparr>]
            else []))"
  using detect_maximal_runs [of xs] single_run_burst [of ys pre run post] by blast

theorem binge_bursts_maximal_runs_witness:
  "detectBingeBursts (slowLeave # quickRun @ [slowLeave]) =
     [\<lparr>startIndex = 1, endIndex = 5, burstLength = 5, averageDwellTime = Fin 2,
       bb_timestamp = Fin 1000\<rparr>]
   \<and> detectBingeBursts (slowLeave # take 4 quickRun @ [slowLeave]) = []"
proof -
  have f5: "filter leaveWithDwell (slowLeave # quickRun @ [slowLeave])
      = [slowLeave] @ quickRun @ [slowLeave]"
    by (simp add: slowLeave_def quickRun_def leave_def leaveEvent_def leaveWithDwell_def
          truthyOpt_def dwellOf_def)
  have f4: "filter leaveWithDwell (slowLeave # take 4 quickRun @ [slowLeave])
      = [slowLeave] @ take 4 quickRun @ [slowLeave]"
    by (simp add: slowLeave_def quickRun_def leave_def leaveEvent_def leaveWithDwell_def
          truthyOpt_def dwellOf_def)
  have slow: "\<forall>s\<in>set [slowLeave]. \<not> num_lt (dwellSeconds s) (Fin 5)"
    by (simp add: slowLeave_def leave_def leaveEvent_def dwellSeconds_def slotDwell_def
          dwellOf_def toNumber_def)
  have quick: "\<forall>s\<in>set quickRun. num_lt (dwellSeconds s) (Fin 5)"
    by (simp add: quickRun_def leave_def leaveEvent_def dwellSeconds_def slotDwell_def
          dwellOf_def toNumber_def)
  then have quick4: "\<forall>s\<in>set (take 4 quickRun). num_lt (dwellSeconds s) (Fin 5)"
    by (meson in_set_takeD)
  have ne: "quickRun \<noteq> []" "take 4 quickRun \<noteq> []" by (simp_all add: quickRun_def)
  have len: "length quickRun = 5" "length (take 4 quickRun) = 4" by (simp_all add: quickRun_def)
  have avg: "num_div (sum_by dwellSeconds quickRun) (of_count 5) = Fin 2"
    by (simp add: quickRun_def leave_def leaveEvent_def dwellSeconds_def slotDwell_def
          dwellOf_def toNumber_def sum_by_def of_count_def)
  have first: "slotTimestamp (hd quickRun) = Fin 1000"
    by (simp add: quickRun_def leave_def leaveEvent_def slotTimestamp_def)
  from binge_bursts_maximal_runs [of _ "slowLeave # quickRun @ [slowLeave]" "[slowLeave]" quickRun
      "[slowLeave]"] f5 slow quick ne(1)
  have "detectBingeBursts (slowLeave # quickRun @ [slowLeave]) =
           (if 5 \<le> length quickRun
            then [\<lparr>startIndex = length [slowLeave],
                   endIndex = length [slowLeave] + length quickRun - 1,
                   burstLength = length quickRun,
                   averageDwellTime =
                     num_div (sum_by dwellSeconds quickRun) (of_count (length quickRun)),
                   bb_timestamp = slotTimestamp (hd quickRun)\<rparr>]
            else [])"
    by blast
  then have 1: "detectBingeBursts (slowLeave # quickRun @ [slowLeave]) =
     [\<lparr>startIndex = 1, endIndex = 5, burstLength = 5, averageDwellTime = Fin 2,
       bb_timestamp = Fin 1000\<rparr>]"
    by (simp add: len avg first)
  from binge_bursts_maximal_runs [of _ "slowLeave # take 4 quickRun @ [slowLeave]" "[slowLeave]"
      "take 4 quickRun" "[slowLeave]"] f4 slow quick4 ne(2)
  have "detectBingeBursts (slowLeave # take 4 quickRun @ [slowLeave]) =
           (if 5 \<le> length (take 4 quickRun)
            then [\<lparr>startIndex = length [slowLeave],
                   endIndex = length [slowLeave] + length (take 4 quickRun) - 1,
                   burstLength = length (take 4 quickRun),
                   averageDwellTime =
                     num_div (sum_by dwellSeconds (take 4 quickRun))
                       (of_count (length (take 4 quickRun))),
                   bb_timestamp = slotTimestamp (hd (take 4 quickRun))\<rparr>]
            else [])"
    by blast
  then have 2: "detectBingeBursts (slowLeave # take 4 quickRun @ [slowLeave]) = []"
    by (simp add: len)
  from 1 2 show ?thesis by blast
qed

section \<open>Properties of the classifier\<close>

text \<open>
  Feature extraction succeeds exactly for a session object with a complete metrics
  object, and what it throws is a \<^verbatim>\<open>TypeError\<close>.
\<close>

lemma extractFeatures_Inr:
  "extractFeatures e session metrics = Inr feats \<Longrightarrow> \<exists>s m. session = Sess s \<and> metrics = Metrics m"
  by (auto simp: extractFeatures_def split: session_arg.splits metrics_arg.splits)

lemma extractFeatures_complete: "\<exists>feats. extractFeatures e (Sess s) (Metrics m) = Inr feats"
  by (simp add: extractFeatures_def)

lemma extractFeatures_Inl: "extractFeatures e session metrics = Inl thrown \<Longrightarrow> thrown = TypeError"
  by (auto simp: extractFeatures_def Let_def split: session_arg.splits metrics_arg.splits)

lemma fallbackResult_Inl:
  "extractFeatures e session metrics = Inl thrown \<Longrightarrow> fallbackResult e session metrics = Inl TypeError"
  by (auto simp: fallbackResult_def healthOf_def extractFeatures_def Let_def
        split: session_arg.splits metrics_arg.splits)

lemma fallbackResult_Inr:
  assumes "extractFeatures e session metrics = Inr feats"
  shows "\<exists>r. fallbackResult e session metrics = Inr r"
proof -
  obtain s m where "session = Sess s" "metrics = Metrics m"
    using extractFeatures_Inr [OF assms] by blast
  then show ?thesis using assms by (simp add: fallbackResult_def healthOf_def)
qed

lemma classifySession_try_Inl:
  "extractFeatures e session metrics = Inl thrown \<Longrightarrow> \<exists>err. classifySession_try e c session metrics = Inl err"
  by (auto simp: classifySession_try_def split: sum.splits option.splits)

text \<open>
  \<^verbatim>\<open>classifySession\<close> rejects exactly when feature extraction throws on its
  arguments, whatever the state of the classifier.
\<close>

lemma classifySession_rejects_iff:
  "(\<exists>thrown. classifySession e c session metrics = Inl thrown)
   = (\<exists>thrown. extractFeatures e session metrics = Inl thrown)"
proof (cases "extractFeatures e session metrics")
  case (Inl thrown)
  then obtain err where "classifySession_try e c session metrics = Inl err"
    using classifySession_try_Inl by blast
  then show ?thesis using Inl fallbackResult_Inl [OF Inl] by (simp add: classifySession_def)
next
  case (Inr feats)
  then obtain r where "fallbackResult e session metrics = Inr r"
    using fallbackResult_Inr by blast
  then show ?thesis using Inr by (auto simp: classifySession_def split: sum.splits)
qed




text \<open>
  \<^verbatim>\<open>xs.map(f)\<close> returns when \<open>f\<close> returns for every element, and then holds the
  values of \<open>f\<close> in order.
\<close>

lemma mapE_Inr:
  "mapE f xs = Inr ys \<Longrightarrow> length ys = length xs \<and> (\<forall>i < length xs. f (xs ! i) = Inr (ys ! i))"
proof (induction xs arbitrary: ys)
  case Nil
  then show ?case by simp
next
  case (Cons x xs)
  from Cons.prems obtain y ys' where y: "f x = Inr y" and r: "mapE f xs = Inr ys'" and e: "ys = y # ys'"
    by (auto split: sum.splits)
  from Cons.IH [OF r] show ?case using y e by (auto simp: nth_Cons split: nat.splits)
qed

lemma mapE_all:
  "(\<And>x. x \<in> set xs \<Longrightarrow> f x = Inr (g x)) \<Longrightarrow> mapE f xs = Inr (map g xs)"
  by (induction xs) simp_all

lemma mapE_then:
  "mapE f xs = Inr ys \<Longrightarrow>
   mapE (\<lambda>x. case f x of Inl err \<Rightarrow> Inl err | Inr y \<Rightarrow> Inr (g y)) xs = Inr (map g ys)"
  by (induction xs arbitrary: ys) (auto split: sum.splits)

lemma mapE_throws:
  "x \<in> set xs \<Longrightarrow> f x = Inl thrown \<Longrightarrow> \<exists>err. mapE f xs = Inl err"
  by (induction xs) (auto split: sum.splits)

text \<open>
  C4.  For every output \<open>p\<close> of the model, in \<^verbatim>\<open>classifySession\<close> and for each
  element of \<^verbatim>\<open>classifySessions\<close>: above 0.7 the classification is doomscroll and below
  0.3 it is healthy, both with confidence \<open>|p - 0.5| * 2\<close>; otherwise it is unknown with
  confidence 0.5.  The model produces an output when it is available and feature
  extraction has given it its input.
\<close>

theorem classification_bands:
  "(ensureModel c = Inr (Some m)
      \<and> extractFeatures e session metrics = Inr feats
      \<and> m [normalizeFeatures feats] = Inr predictionData
    \<longrightarrow> (\<exists>r. classifySession e c session metrics = Inr r
          \<and> (classification r, r_confidence r) = specBand (outputAt predictionData 0)))
   \<and> (ensureModel c = Inr (Some m) \<and> sessions \<noteq> []
      \<and> mapE (\<lambda>(session, metrics). extractFeatures e session metrics) sessions = Inr allFeatures
      \<and> m (map normalizeFeatures allFeatures) = Inr batchData
    \<longrightarrow> (\<exists>rs. classifySessions e c sessions = Inr rs \<and> length rs = length sessions
          \<and> (\<forall>index < length sessions.
                (classification (rs ! index), r_confidence (rs ! index))
                = specBand (outputAt batchData index))))"
proof (intro conjI impI)
  assume "ensureModel c = Inr (Some m)
      \<and> extractFeatures e session metrics = Inr feats
      \<and> m [normalizeFeatures feats] = Inr predictionData"
  then show "\<exists>r. classifySession e c session metrics = Inr r
          \<and> (classification r, r_confidence r) = specBand (outputAt predictionData 0)"
    by (auto simp: classifySession_def classifySession_try_def specBand_def Let_def)
next
  assume a: "ensureModel c = Inr (Some m) \<and> sessions \<noteq> []
      \<and> mapE (\<lambda>(session, metrics). extractFeatures e session metrics) sessions = Inr allFeatures
      \<and> m (map normalizeFeatures allFeatures) = Inr batchData"
  let ?band = "\<lambda>p. if num_gt p (fl 0.7) then Doomscroll
                    else if num_lt p (fl 0.3) then Healthy else UnknownHealth"
  let ?result = "\<lambda>(index, sm). \<lparr>classification = ?band (outputAt batchData index),
       r_confidence = (if ?band (outputAt batchData index) = UnknownHealth then Fin 0.5
             else num_mul (num_abs (num_sub (outputAt batchData index) (Fin 0.5))) (Fin 2)),
       features = allFeatures ! index, modelVersion = currentModelVersion\<rparr>"
  from a have ex: "length allFeatures = length sessions"
    "\<forall>i < length sessions. (\<lambda>(session, metrics). extractFeatures e session metrics) (sessions ! i)
        = Inr (allFeatures ! i)"
    using mapE_Inr by blast+
  have nf: "mapE (\<lambda>(session, metrics).
                   case extractFeatures e session metrics of
                     Inl err \<Rightarrow> Inl err
                   | Inr feats \<Rightarrow> Inr (normalizeFeatures feats)) sessions
      = Inr (map normalizeFeatures allFeatures)"
  proof -
    have "(\<lambda>(session, metrics).
                   case extractFeatures e session metrics of
                     Inl err \<Rightarrow> Inl err
                   | Inr feats \<Rightarrow> Inr (normalizeFeatures feats))
        = (\<lambda>x. case (\<lambda>(session, metrics). extractFeatures e session metrics) x of
                  Inl err \<Rightarrow> Inl err
                | Inr feats \<Rightarrow> Inr (normalizeFeatures feats))"
      by (simp add: fun_eq_iff)
    then show ?thesis using a mapE_then by metis
  qed
  have res: "mapE (\<lambda>(index, (session, metrics)).
                       let p = outputAt batchData index;
                           cls = (if num_gt p (fl 0.7) then Doomscroll
                                  else if num_lt p (fl 0.3) then Healthy
                                  else UnknownHealth)
                       in case extractFeatures e session metrics of
                            Inl err \<Rightarrow> Inl err
                          | Inr feats \<Rightarrow>
                              Inr \<lparr>classification = cls,
                                   r_confidence =
                                     (if cls = UnknownHealth then Fin 0.5
                                      else num_mul (num_abs (num_sub p (Fin 0.5))) (Fin 2)),
                                   features = feats,
                                   modelVersion = currentModelVersion\<rparr>)
                    (enumerate 0 sessions)
      = Inr (map ?result (enumerate 0 sessions))"
  proof (rule mapE_all)
    fix x
    assume "x \<in> set (enumerate 0 sessions)"
    then obtain i where i: "i < length sessions" "x = (i, sessions ! i)"
      by (auto simp: in_set_conv_nth nth_enumerate_eq)
    obtain session metrics where sm: "sessions ! i = (session, metrics)" by (cases "sessions ! i")
    have "extractFeatures e session metrics = Inr (allFeatures ! i)"
      using ex(2) i(1) sm by fastforce
    then show "(\<lambda>(index, (session, metrics)).
                       let p = outputAt batchData index;
                           cls = (if num_gt p (fl 0.7) then Doomscroll
                                  else if num_lt p (fl 0.3) then Healthy
                                  else UnknownHealth)
                       in case extractFeatures e session metrics of
                            Inl err \<Rightarrow> Inl err
                          | Inr feats \<Rightarrow>
                              Inr \<lparr>classification = cls,
                                   r_confidence =
                                     (if cls = UnknownHealth then Fin 0.5
                                      else num_mul (num_abs (num_sub p (Fin 0.5))) (Fin 2)),
                                   features = feats,
                                   modelVersion = currentModelVersion\<rparr>) x
        = Inr (?result x)"
      using i(2) sm by (simp add: Let_def)
  qed
  have "classifySessions e c sessions = Inr (map ?result (enumerate 0 sessions))"
    using a nf res by (simp add: classifySessions_def classifySessions_try_def)
  moreover have "length (map ?result (enumerate 0 sessions)) = length sessions" by simp
  moreover have "\<forall>index < length sessions.
      (classification (map ?result (enumerate 0 sessions) ! index),
       r_confidence (map ?result (enumerate 0 sessions) ! index))
      = specBand (outputAt batchData index)"
    by (simp add: nth_enumerate_eq specBand_def)
  ultimately show "\<exists>rs. classifySessions e c sessions = Inr rs \<and> length rs = length sessions
          \<and> (\<forall>index < length sessions.
                (classification (rs ! index), r_confidence (rs ! index))
                = specBand (outputAt batchData index))"
    by blast
qed

theorem classification_bands_witness:
  "(\<exists>r. classifySession testEnv (classifierWith (constModel (Fin 1))) (Sess (sessionOf []))
        (Metrics (defaultMetrics testEnv)) = Inr r
      \<and> classification r = Doomscroll \<and> r_confidence r = Fin 1)
   \<and> (\<exists>rs. classifySessions testEnv (classifierWith (constModel (Fin 0)))
             [(Sess (sessionOf []), Metrics (defaultMetrics testEnv))] = Inr rs
          \<and> length rs = 1 \<and> classification (rs ! 0) = Healthy \<and> r_confidence (rs ! 0) = Fin 1)"
proof -
  obtain feats where f: "extractFeatures testEnv (Sess (sessionOf [])) (Metrics (defaultMetrics testEnv))
      = Inr feats"
    using extractFeatures_complete by blast
  have b1: "specBand (Fin 1) = (Doomscroll, Fin 1)"
    by (simp add: specBand_def num_gt_def num_sub_def fl_literals)
  have b2: "specBand (Fin 0) = (Healthy, Fin 1)"
    by (simp add: specBand_def num_gt_def num_sub_def fl_literals)
  have h1: "ensureModel (classifierWith (constModel (Fin 1))) = Inr (Some (constModel (Fin 1)))
      \<and> extractFeatures testEnv (Sess (sessionOf [])) (Metrics (defaultMetrics testEnv)) = Inr feats
      \<and> constModel (Fin 1) [normalizeFeatures feats] = Inr [Fin 1]"
    using f by (simp add: ensureModel_def classifierWith_def constModel_def)
  have h2: "ensureModel (classifierWith (constModel (Fin 0))) = Inr (Some (constModel (Fin 0)))
      \<and> [(Sess (sessionOf []), Metrics (defaultMetrics testEnv))] \<noteq> []
      \<and> mapE (\<lambda>(session, metrics). extractFeatures testEnv session metrics)
           [(Sess (sessionOf []), Metrics (defaultMetrics testEnv))] = Inr [feats]
      \<and> constModel (Fin 0) (map normalizeFeatures [feats]) = Inr [Fin 0]"
    using f by (simp add: ensureModel_def classifierWith_def constModel_def)
  from h1 classification_bands [of "classifierWith (constModel (Fin 1))" "constModel (Fin 1)"
      testEnv "Sess (sessionOf [])" "Metrics (defaultMetrics testEnv)" feats "[Fin 1]"]
  have 1: "\<exists>r. classifySession testEnv (classifierWith (constModel (Fin 1))) (Sess (sessionOf []))
             (Metrics (defaultMetrics testEnv)) = Inr r
          \<and> (classification r, r_confidence r) = specBand (outputAt [Fin 1] 0)"
    by blast
  from h2 classification_bands [of "classifierWith (constModel (Fin 0))" "constModel (Fin 0)"
      testEnv _ _ _ _ "[(Sess (sessionOf []), Metrics (defaultMetrics testEnv))]" "[feats]" "[Fin 0]"]
  have 2: "\<exists>rs. classifySessions testEnv (classifierWith (constModel (Fin 0)))
             [(Sess (sessionOf []), Metrics (defaultMetrics testEnv))] = Inr rs
          \<and> length rs = length [(Sess (sessionOf []), Metrics (defaultMetrics testEnv))]
          \<and> (\<forall>index < length [(Sess (sessionOf []), Metrics (defaultMetrics testEnv))].
                (classification (rs ! index), r_confidence (rs ! index))
                = specBand (outputAt [Fin 0] index))"
    by blast
  from 1 have r1: "\<exists>r. classifySession testEnv (classifierWith (constModel (Fin 1)))
        (Sess (sessionOf [])) (Metrics (defaultMetrics testEnv)) = Inr r
      \<and> classification r = Doomscroll \<and> r_confidence r = Fin 1"
    by (simp add: outputAt_def b1)
  from 2 have r2: "\<exists>rs. classifySessions testEnv (classifierWith (constModel (Fin 0)))
             [(Sess (sessionOf []), Metrics (defaultMetrics testEnv))] = Inr rs
          \<and> length rs = 1 \<and> classification (rs ! 0) = Healthy \<and> r_confidence (rs ! 0) = Fin 1"
    by (auto simp: outputAt_def b2)
  from r1 r2 show ?thesis by blast
qed

section \<open>Properties of the scheduler\<close>

subsection \<open>The order of the queue\<close>

lemma compareAnalyses_precedes: "(compareAnalyses a b \<le> 0) = precedes a b"
  by (auto simp: compareAnalyses_def precedes_def Let_def)

lemma sorted_sortQueue: "sorted_wrt precedes (sortQueue queue)"
proof -
  have "sorted_wrt (\<lambda>a b. compareAnalyses a b \<le> 0) (sort_by compareAnalyses queue)"
    by (rule sorted_sort_by) (auto simp: compareAnalyses_def Let_def split: if_splits)
  then show ?thesis by (simp add: sortQueue_def compareAnalyses_precedes)
qed

lemma handleFailure_sorted:
  "handleFailure e a err s = Inr s' \<Longrightarrow> sorted_wrt precedes (analysisQueue s) \<Longrightarrow>
   sorted_wrt precedes (analysisQueue s')"
  by (auto simp: handleFailure_def Let_def sorted_sortQueue split: if_splits option.splits sum.splits)

lemma handleResult_sorted:
  "handleResult e s ra = Inr s' \<Longrightarrow> sorted_wrt precedes (analysisQueue s) \<Longrightarrow>
   sorted_wrt precedes (analysisQueue s')"
  by (cases ra)
     (auto simp: handleResult_def handleFailure_sorted split: batch_result.splits option.splits)

lemma handleResults_sorted:
  "sorted_wrt precedes (analysisQueue s) \<Longrightarrow>
   sorted_wrt precedes (analysisQueue (handleResults e s ras))"
proof (induction ras arbitrary: s)
  case Nil
  then show ?case by simp
next
  case (Cons ra ras)
  show ?case
  proof (cases "handleResult e s ra")
    case (Inl thrown)
    then show ?thesis using Cons.prems by simp
  next
    case (Inr s')
    then have "sorted_wrt precedes (analysisQueue s')"
      using Cons.prems by (rule handleResult_sorted)
    then show ?thesis using Inr Cons.IH by simp
  qed
qed

lemma reachable_sorted: "reachable s \<Longrightarrow> sorted_wrt precedes (analysisQueue s)"
proof (induction rule: reachable.induct)
  case reach_new
  show ?case by (simp add: newScheduler_def)
next
  case (reach_schedule s e session metrics prio cb)
  show ?case by (simp add: scheduleAnalysis_def Let_def sorted_sortQueue split: option.splits)
next
  case (reach_begin s)
  then show ?case by (simp add: processQueue_begin_def sorted_wrt_drop)
next
  case (reach_finish s results e)
  then show ?case by (simp add: processQueue_finish_def handleResults_sorted)
next
  case (reach_clearQueue s)
  show ?case by (simp add: clearQueue_def)
next
  case (reach_clearSession s sid)
  then show ?case by (simp add: clearSessionAnalysis_def sorted_wrt_filter)
qed

text \<open>
  C8.  In every state the scheduler can reach, so after every \<^verbatim>\<open>scheduleAnalysis\<close>,
  every retry that puts an entry back and every batch taken off the front, the queue is
  ordered by priority rank (high, normal, low) and then by timestamp ascending.  In
  particular, three sessions scheduled with priorities low, high and normal at increasing
  times are dequeued as the batch high, normal, low.
\<close>

theorem queue_ordered:
  "(reachable s \<longrightarrow> sorted_wrt precedes (analysisQueue s))
   \<and> sorted_wrt precedes (analysisQueue (scheduleAnalysis e session metrics prio cb s0))
   \<and> (sorted_wrt precedes (analysisQueue s4)
      \<longrightarrow> sorted_wrt precedes (analysisQueue (handleResults e4 s4 [(NotClassified err, a)]))
        \<and> sorted_wrt precedes (analysisQueue (processQueue_begin s4)))
   \<and> (session_id s1 \<noteq> session_id s2 \<and> session_id s1 \<noteq> session_id s3
        \<and> session_id s2 \<noteq> session_id s3 \<and> now e1 < now e2 \<and> now e2 < now e3
      \<longrightarrow> map (\<lambda>a. (sessionId a, a_priority a))
            (batch (processQueue_begin
              (scheduleAnalysis e3 s3 m3 Normal cb3
                (scheduleAnalysis e2 s2 m2 High cb2
                  (scheduleAnalysis e1 s1 m1 Low cb1 newScheduler)))))
          = [(session_id s2, High), (session_id s3, Normal), (session_id s1, Low)])"
proof (intro conjI impI)
  show "sorted_wrt precedes (analysisQueue s)" if "reachable s"
    using that by (rule reachable_sorted)
  show "sorted_wrt precedes (analysisQueue (scheduleAnalysis e session metrics prio cb s0))"
    by (simp add: scheduleAnalysis_def Let_def sorted_sortQueue split: option.splits)
  show "sorted_wrt precedes (analysisQueue (handleResults e4 s4 [(NotClassified err, a)]))"
    if "sorted_wrt precedes (analysisQueue s4)"
    using that by (rule handleResults_sorted)
  show "sorted_wrt precedes (analysisQueue (processQueue_begin s4))"
    if "sorted_wrt precedes (analysisQueue s4)"
    using that by (simp add: processQueue_begin_def sorted_wrt_drop)
next
  assume "session_id s1 \<noteq> session_id s2 \<and> session_id s1 \<noteq> session_id s3
        \<and> session_id s2 \<noteq> session_id s3 \<and> now e1 < now e2 \<and> now e2 < now e3"
  then show "map (\<lambda>a. (sessionId a, a_priority a))
            (batch (processQueue_begin
              (scheduleAnalysis e3 s3 m3 Normal cb3
                (scheduleAnalysis e2 s2 m2 High cb2
                  (scheduleAnalysis e1 s1 m1 Low cb1 newScheduler)))))
          = [(session_id s2, High), (session_id s3, Normal), (session_id s1, Low)]"
    by (simp add: scheduleAnalysis_def newScheduler_def processQueue_begin_def sortQueue_def
          sort_by_def compareAnalyses_def priorityOrder_def batchSize_def Let_def
          split: option.splits)
qed

theorem queue_ordered_witness:
  "reachable threeScheduled
   \<and> sorted_wrt precedes (analysisQueue threeScheduled)
   \<and> sorted_wrt precedes
       (analysisQueue (handleResults (envAt 5) threeScheduled
          [(NotClassified ''Prediction failed'', entryFor ''d'' 0)]))
   \<and> sorted_wrt precedes (analysisQueue (processQueue_begin threeScheduled))
   \<and> map (\<lambda>a. (sessionId a, a_priority a)) (batch (processQueue_begin threeScheduled))
       = [(''b'', High), (''c'', Normal), (''a'', Low)]"
proof -
  have r: "reachable threeScheduled"
    unfolding threeScheduled_def by (intro reachable.intros)
  have d: "session_id (namedSession ''a'') \<noteq> session_id (namedSession ''b'')
        \<and> session_id (namedSession ''a'') \<noteq> session_id (namedSession ''c'')
        \<and> session_id (namedSession ''b'') \<noteq> session_id (namedSession ''c'')
        \<and> now (envAt 1) < now (envAt 2) \<and> now (envAt 2) < now (envAt 3)"
    by (simp add: namedSession_def envAt_def)
  note t = queue_ordered [where s = threeScheduled and ?s4.0 = threeScheduled and ?e4.0 = "envAt 5"
      and a = "entryFor ''d'' 0" and err = "''Prediction failed''"
      and ?s1.0 = "namedSession ''a''" and ?s2.0 = "namedSession ''b''"
      and ?s3.0 = "namedSession ''c''" and ?e1.0 = "envAt 1" and ?e2.0 = "envAt 2"
      and ?e3.0 = "envAt 3" and ?m1.0 = "Metrics (defaultMetrics testEnv)" and ?cb1.0 = None
      and ?m2.0 = "Metrics (defaultMetrics testEnv)" and ?cb2.0 = None
      and ?m3.0 = "Metrics (defaultMetrics testEnv)" and ?cb3.0 = None]
  from t r have 1: "sorted_wrt precedes (analysisQueue threeScheduled)" by blast
  from t 1 have 2: "sorted_wrt precedes
       (analysisQueue (handleResults (envAt 5) threeScheduled
          [(NotClassified ''Prediction failed'', entryFor ''d'' 0)]))
     \<and> sorted_wrt precedes (analysisQueue (processQueue_begin threeScheduled))"
    by blast
  from t d have "map (\<lambda>a. (sessionId a, a_priority a))
            (batch (processQueue_begin
              (scheduleAnalysis (envAt 3) (namedSession ''c'') (Metrics (defaultMetrics testEnv))
                 Normal None
                (scheduleAnalysis (envAt 2) (namedSession ''b'') (Metrics (defaultMetrics testEnv))
                   High None
                  (scheduleAnalysis (envAt 1) (namedSession ''a'') (Metrics (defaultMetrics testEnv))
                     Low None newScheduler)))))
          = [(session_id (namedSession ''b''), High), (session_id (namedSession ''c''), Normal),
             (session_id (namedSession ''a''), Low)]" by blast
  then have 3: "map (\<lambda>a. (sessionId a, a_priority a)) (batch (processQueue_begin threeScheduled))
       = [(''b'', High), (''c'', Normal), (''a'', Low)]"
    by (simp add: threeScheduled_def namedSession_def)
  from r 1 2 3 show ?thesis by blast
qed

subsection \<open>Failures of a batch\<close>

text \<open>
  What \<^verbatim>\<open>processBatch\<close> returns has one result per entry, and it reports a failure
  for an entry exactly when feature extraction throws on that entry's session and
  metrics: that is the one way in which \<^verbatim>\<open>classifySession\<close> rejects.
\<close>

lemma mapE_fallback_Inr:
  "mapE (\<lambda>(session, metrics). fallbackResult e session metrics) sessions = Inr rs \<Longrightarrow>
   i < length sessions \<Longrightarrow> \<exists>feats. extractFeatures e (fst (sessions ! i)) (snd (sessions ! i)) = Inr feats"
proof -
  assume m: "mapE (\<lambda>(session, metrics). fallbackResult e session metrics) sessions = Inr rs"
    and i: "i < length sessions"
  from mapE_Inr [OF m] i
  have "(\<lambda>(session, metrics). fallbackResult e session metrics) (sessions ! i) = Inr (rs ! i)" by blast
  then have f: "fallbackResult e (fst (sessions ! i)) (snd (sessions ! i)) = Inr (rs ! i)"
    by (simp add: case_prod_beta)
  show ?thesis
  proof (cases "extractFeatures e (fst (sessions ! i)) (snd (sessions ! i))")
    case (Inl thrown)
    from fallbackResult_Inl [OF Inl] f show ?thesis by simp
  next
    case (Inr feats)
    then show ?thesis by blast
  qed
qed

lemma classifySessions_Inr:
  assumes "classifySessions e c sessions = Inr rs"
  shows "length rs = length sessions"
    and "i < length sessions \<Longrightarrow>
         \<exists>feats. extractFeatures e (fst (sessions ! i)) (snd (sessions ! i)) = Inr feats"
proof -
  let ?fb = "mapE (\<lambda>(session, metrics). fallbackResult e session metrics) sessions"
  from assms consider (fallback) "?fb = Inr rs"
    | (predicted) m where "classifySessions_try e m sessions = Inr rs"
    by (auto simp: classifySessions_def split: sum.splits option.splits if_splits)
  then have "length rs = length sessions
      \<and> (i < length sessions \<longrightarrow>
           (\<exists>feats. extractFeatures e (fst (sessions ! i)) (snd (sessions ! i)) = Inr feats))"
  proof cases
    case fallback
    then show ?thesis using mapE_Inr [OF fallback] mapE_fallback_Inr [OF fallback] by blast
  next
    case predicted
    then obtain allFeatures predictionData f where
      a: "mapE (\<lambda>(session, metrics).
                   case extractFeatures e session metrics of
                     Inl err \<Rightarrow> Inl err
                   | Inr feats \<Rightarrow> Inr (normalizeFeatures feats)) sessions = Inr allFeatures"
      and r: "mapE f (enumerate 0 sessions) = Inr rs"
      by (auto simp: classifySessions_try_def split: sum.splits)
    from mapE_Inr [OF r] have l: "length rs = length sessions" by simp
    have "\<exists>feats. extractFeatures e (fst (sessions ! i)) (snd (sessions ! i)) = Inr feats"
      if "i < length sessions"
    proof -
      from mapE_Inr [OF a] that
      have "(\<lambda>(session, metrics).
                   case extractFeatures e session metrics of
                     Inl err \<Rightarrow> Inl err
                   | Inr feats \<Rightarrow> Inr (normalizeFeatures feats)) (sessions ! i)
            = Inr (allFeatures ! i)" by blast
      then show ?thesis by (auto simp: case_prod_beta split: sum.splits)
    qed
    with l show ?thesis by blast
  qed
  then show "length rs = length sessions"
    and "i < length sessions \<Longrightarrow>
         \<exists>feats. extractFeatures e (fst (sessions ! i)) (snd (sessions ! i)) = Inr feats"
    by blast+
qed


lemma processBatch_failure_iff:
  assumes "i < length entries"
  shows "(\<exists>msg. processBatch e c elapsed entries ! i = NotClassified msg)
       = (\<exists>thrown. extractFeatures e (Sess (a_session (entries ! i))) (a_metrics (entries ! i))
             = Inl thrown)"
proof (cases "classifySessions e c
         (map (\<lambda>analysis. (Sess (a_session analysis), a_metrics analysis)) entries)")
  case (Inl err)
  have "processBatch e c elapsed entries ! i =
      (case classifySession e c (Sess (a_session (entries ! i))) (a_metrics (entries ! i)) of
         Inr result \<Rightarrow> Classified result (elapsed i)
       | Inl individualError \<Rightarrow> NotClassified (errorMessage individualError))"
    using Inl assms by (simp add: processBatch_def nth_enumerate_eq)
  then have "(\<exists>msg. processBatch e c elapsed entries ! i = NotClassified msg)
      = (\<exists>thrown. classifySession e c (Sess (a_session (entries ! i))) (a_metrics (entries ! i))
            = Inl thrown)"
    by (auto split: sum.splits)
  then show ?thesis by (simp only: classifySession_rejects_iff)
next
  case (Inr rs)
  from classifySessions_Inr(1) [OF Inr] classifySessions_Inr(2) [OF Inr, of i] assms
  have l: "length rs = length entries"
    and ok: "\<exists>feats. extractFeatures e (Sess (a_session (entries ! i))) (a_metrics (entries ! i))
        = Inr feats"
    by simp_all
  have "processBatch e c elapsed entries ! i = Classified (rs ! i) (elapsed i)"
    using Inr assms l by (simp add: processBatch_def nth_enumerate_eq)
  then show ?thesis using ok by auto
qed



subsection \<open>Entries per session\<close>



lemma distinct_ids_sortQueue:
  "distinct (map sessionId (sortQueue queue)) = distinct (map sessionId queue)"
proof -
  have "mset (map sessionId (sortQueue queue)) = mset (map sessionId queue)"
    by (simp add: sortQueue_def mset_sort_by)
  then show ?thesis by (rule mset_eq_imp_distinct_iff)
qed

lemma set_sortQueue: "set (sortQueue queue) = set queue"
  by (simp add: sortQueue_def set_sort_by)

lemma handleFailure_unique:
  assumes "distinct (map sessionId (analysisQueue s @ a # rest))"
    and "handleFailure e a err s = Inr s'"
  shows "distinct (map sessionId (analysisQueue s' @ rest))"
proof (cases "retryCount a + 1 \<le> maxRetries")
  case True
  then have "analysisQueue s' =
      sortQueue (analysisQueue s @
        [a\<lparr>retryCount := retryCount a + 1, a_priority := Low,
           a_timestamp := now e + int (retryCount a + 1) * 2000\<rparr>])"
    using assms(2) by (auto simp: handleFailure_def Let_def)
  with assms(1) show ?thesis by (auto simp: distinct_ids_sortQueue set_sortQueue)
next
  case False
  then have "analysisQueue s' = analysisQueue s"
    using assms(2) by (auto simp: handleFailure_def Let_def split: option.splits sum.splits)
  with assms(1) show ?thesis by simp
qed

lemma handleResult_unique:
  assumes "distinct (map sessionId (analysisQueue s @ a # rest))"
    and "handleResult e s (r, a) = Inr s'"
  shows "distinct (map sessionId (analysisQueue s' @ rest))"
proof (cases r)
  case (Classified res t)
  then have "analysisQueue s' = analysisQueue s"
    using assms(2) by (auto simp: handleResult_def split: option.splits)
  with assms(1) show ?thesis by simp
next
  case (NotClassified err)
  then have "handleFailure e a err s = Inr s'" using assms(2) by (simp add: handleResult_def)
  from handleFailure_unique [OF assms(1) this] show ?thesis .
qed

lemma handleResults_unique:
  "distinct (map sessionId (analysisQueue s @ bs)) \<Longrightarrow>
   distinct (map sessionId (analysisQueue (handleResults e s (zip rs bs))))"
proof (induction bs arbitrary: rs s)
  case Nil
  then show ?case by simp
next
  case (Cons a bs)
  show ?case
  proof (cases rs)
    case Nil
    with Cons.prems show ?thesis by simp
  next
    case (Cons r rs')
    show ?thesis
    proof (cases "handleResult e s (r, a)")
      case (Inl thrown)
      then show ?thesis using Cons.prems Cons by simp
    next
      case (Inr s')
      from handleResult_unique [OF Cons.prems Inr]
      have "distinct (map sessionId (analysisQueue s' @ bs))" .
      then show ?thesis using Cons.IH Cons Inr by simp
    qed
  qed
qed

text \<open>
  Every operation keeps the entries of the queue and of the batch in flight at one per
  session, as long as no session is scheduled while one of its entries is in that batch.
\<close>

lemma unique_sessions_preserved:
  assumes "distinct (map sessionId (analysisQueue s @ batch s))"
  shows "session_id session \<notin> sessionId ` set (batch s) \<Longrightarrow>
           distinct (map sessionId (analysisQueue (scheduleAnalysis e session metrics prio cb s)
             @ batch (scheduleAnalysis e session metrics prio cb s)))"
    and "distinct (map sessionId (analysisQueue (processQueue_begin s) @ batch (processQueue_begin s)))"
    and "distinct (map sessionId (analysisQueue (processQueue_finish e results s)
           @ batch (processQueue_finish e results s)))"
    and "distinct (map sessionId (analysisQueue (clearQueue s) @ batch (clearQueue s)))"
    and "distinct (map sessionId (analysisQueue (clearSessionAnalysis sid s)
           @ batch (clearSessionAnalysis sid s)))"
proof -
  show "distinct (map sessionId (analysisQueue (scheduleAnalysis e session metrics prio cb s)
             @ batch (scheduleAnalysis e session metrics prio cb s)))"
    if "session_id session \<notin> sessionId ` set (batch s)"
    using assms that
    by (auto simp: scheduleAnalysis_def Let_def distinct_ids_sortQueue set_sortQueue
          distinct_map_filter split: option.splits)
  show "distinct (map sessionId (analysisQueue (processQueue_begin s) @ batch (processQueue_begin s)))"
  proof (cases "isProcessing s \<or> length (analysisQueue s) = 0")
    case True
    with assms show ?thesis by (simp add: processQueue_begin_def)
  next
    case False
    have "mset (map sessionId (drop batchSize (analysisQueue s) @ take batchSize (analysisQueue s)))
        = mset (map sessionId (analysisQueue s))"
      by (metis append_take_drop_id mset_append mset_map union_commute)
    then have "distinct (map sessionId (drop batchSize (analysisQueue s) @ take batchSize (analysisQueue s)))
        = distinct (map sessionId (analysisQueue s))"
      by (rule mset_eq_imp_distinct_iff)
    then show ?thesis using assms False
      by (simp add: processQueue_begin_def)
  qed
  show "distinct (map sessionId (analysisQueue (processQueue_finish e results s)
           @ batch (processQueue_finish e results s)))"
    using assms handleResults_unique [OF assms, of e results]
    by (simp add: processQueue_finish_def)
  show "distinct (map sessionId (analysisQueue (clearQueue s) @ batch (clearQueue s)))"
    using assms by (simp add: clearQueue_def)
  show "distinct (map sessionId (analysisQueue (clearSessionAnalysis sid s)
           @ batch (clearSessionAnalysis sid s)))"
    using assms by (auto simp: clearSessionAnalysis_def distinct_map_filter)
qed

subsection \<open>Retries\<close>

text \<open>
  The retry of a failed entry: a failure whose incremented retry count is at most 3 puts
  the entry back with that count, priority low and timestamp \<^verbatim>\<open>Date.now()\<close> plus the
  count times 2000 ms, and a failure beyond that leaves the queue as it is.
\<close>

lemma handleFailure_retry:
  "retryCount a + 1 \<le> 3 \<Longrightarrow>
   handleFailure e a err s =
     Inr (s\<lparr>analysisQueue :=
            sortQueue (analysisQueue s @
              [a\<lparr>retryCount := retryCount a + 1, a_priority := Low,
                  a_timestamp := now e + int (retryCount a + 1) * 2000\<rparr>])\<rparr>)"
  by (simp add: handleFailure_def maxRetries_def Let_def)

lemma handleFailure_exhausted:
  "3 < retryCount a + 1 \<Longrightarrow> handleFailure e a err s = Inr s' \<Longrightarrow>
   analysisQueue s' = analysisQueue s"
  by (auto simp: handleFailure_def maxRetries_def Let_def split: option.splits sum.splits)

text \<open>
  The terminal callback.  Once the retries are used up and a callback is registered,
  \<^verbatim>\<open>handleFailure\<close> evaluates \<^verbatim>\<open>extractFeatures\<close> for the argument of the callback.
  For an entry on which it returns, the callback gets the terminal result and its
  registration is removed; for an entry on which it throws, \<^verbatim>\<open>handleFailure\<close> throws
  before the callback is called.  The entries that fail are those on which it throws
  (\<open>processBatch_failure_iff\<close>).
\<close>

lemma handleFailure_terminal:
  assumes "3 < retryCount a + 1" and "callbacks s (sessionId a) = Some f"
  shows "extractFeatures e (Sess (a_session a)) (a_metrics a) = Inr feats \<Longrightarrow>
         handleFailure e a err s =
           Inr (s\<lparr>delivered := delivered s @
                    [(f, \<lparr>r_sessionId = sessionId a,
                          r_result = \<lparr>classification = UnknownHealth, r_confidence = Fin 0,
                                      features = feats, modelVersion = ''failed''\<rparr>,
                          r_processingTime = Fin 0, r_success = False,
                          r_error = Some (errorOrDefault err)\<rparr>)],
                  callbacks := (callbacks s)(sessionId a := None)\<rparr>)"
    and "extractFeatures e (Sess (a_session a)) (a_metrics a) = Inl thrown \<Longrightarrow>
         handleFailure e a err s = Inl thrown"
  using assms by (simp_all add: handleFailure_def maxRetries_def Let_def terminalResult_def)

text \<open>When the body of the loop throws, the results after that one are not handled.\<close>

lemma handleResults_stops:
  "handleResult e s ra = Inl thrown \<Longrightarrow> handleResults e s (ra # rest) = s"
  by simp



end
